theory Spec2Isabelle
  imports Main "HOL-Library.Word"
begin

section \<open>The block-ingestion pipeline of the ilxd full node\<close>

text \<open>
  A shallow embedding of \<^verbatim>\<open>server.go\<close> (package main: \<^verbatim>\<open>BuildServer\<close>,
  \<^verbatim>\<open>handleIncomingBlock\<close>, \<^verbatim>\<open>processBlock\<close>, \<^verbatim>\<open>decodeXthinner\<close>,
  \<^verbatim>\<open>fetchBlockTxids\<close>, \<^verbatim>\<open>fetchBlock\<close>, \<^verbatim>\<open>requestBlock\<close>) and of the client
  half of \<^verbatim>\<open>ChainService\<close> (package sync: \<^verbatim>\<open>GetBlockTxs\<close>, \<^verbatim>\<open>GetBlockTxids\<close>,
  \<^verbatim>\<open>GetBlock\<close>).

  The server is a record that is passed through every function and returned updated.
  Each function is run from its first statement to the point where its goroutine
  returns, panics or blocks for ever; the interleaving of several goroutines is not
  modelled. The collaborators whose code is elsewhere (chain, mempool, consensus
  engine, network, remote peers, the clock, the order of a \<^verbatim>\<open>range\<close> over a map) are
  functions of an environment record; each takes the number of calls made so far, so
  that the same question may be answered differently at different moments.
\<close>

subsection \<open>Data\<close>

type_synonym ID = "256 word"
  \<comment> \<open>\<^verbatim>\<open>types.ID\<close>, 32 bytes\<close>

type_synonym peer_ID = string
  \<comment> \<open>\<^verbatim>\<open>peer.ID\<close>\<close>

type_synonym bytes = "8 word list"

type_synonym Transaction = bytes
  \<comment> \<open>the pipeline never looks inside a transaction; it only asks for its ID\<close>

record BlockHeader =
  Version :: "32 word"
  Height :: "32 word"
  Parent :: bytes
  Timestamp :: "64 word"
  TxRoot :: bytes
  Producer_ID :: bytes
  Signature :: bytes

record Block =
  Header :: BlockHeader
  Transactions :: "Transaction list"

record XThinnerBlock =
  XHeader :: BlockHeader
  XEncoded :: bytes

record orphanBlock =
  orphan_blk :: Block
  orphan_relayingPeer :: peer_ID
  orphan_firstSeen :: int

record Policy =
  MinFeePerByte :: nat
  MinStake :: nat
  BlocksizeSoftLimit :: nat
  MaxMessageSize :: nat
  TreasuryWhitelist :: "ID list"

datatype ErrorCode = ErrInvalidTxRoot | ErrDoesNotConnect | ErrOtherRule nat

text \<open>
  Modelled from the spec: the error enum of a chain service response (package wire)
  is None, NotFound or BadRequest.
\<close>

datatype ErrorResponse = ErrorResponse_None | ErrorResponse_NotFound | ErrorResponse_BadRequest

text \<open>
  The errors that travel through the pipeline: the two classes that
  \<^verbatim>\<open>processBlock\<close> tells apart by type, those made by the chain service client and
  by \<^verbatim>\<open>fetchBlockTxids\<close>, and any other error.
\<close>

datatype error =
    OrphanBlockError
  | RuleError ErrorCode
  | ErrorResponseFromPeer ErrorResponse
  | DidNotReturnAllRequestedTxs peer_ID
  | UnexpectedNumberOfIDs
  | BlockInvalid
  | OtherError string

text \<open>
  Modelled from the spec: the consensus engine (package consensus) emits exactly one
  value on the callback channel, \<^verbatim>\<open>StatusFinalized\<close> or \<^verbatim>\<open>StatusRejected\<close>.
\<close>

datatype Status = StatusFinalized | StatusRejected

text \<open>
  Transaction indices are \<^verbatim>\<open>uint32\<close> in the source. A block cannot hold
  \<open>2 ^ 32\<close> transactions (a frame of the chain service is at most \<open>2 ^ 23\<close> bytes),
  so no index wraps, and indices are natural numbers here.
\<close>

datatype request =
    GetBlockTxsReq ID "nat list"
  | GetBlockTxidsReq ID
  | GetBlockReq ID

text \<open>
  Every call that leaves the coordinator is appended to a log kept in the server
  record: the claims about ban scores, about \<^verbatim>\<open>NewBlock\<close> and about re-entry are
  statements about this log.
\<close>

datatype call =
    CheckConnectBlock Block
  | ConnectBlock Block
  | DecodeXthinner XThinnerBlock
  | IncreaseBanscore peer_ID nat nat
  | NewBlock ID bool
  | SendRequest peer_ID request
  | GoWaiter Block
  | AfterFunc nat ID

text \<open>
  A \<^verbatim>\<open>sync.RWMutex\<close>. A goroutine that calls \<^verbatim>\<open>Lock\<close> while the mutex is held
  waits; in a run of one goroutine nobody else releases it, so the wait never ends.
  A waiting writer keeps new readers out.
\<close>

record RWMutex =
  writer :: bool
  readers :: nat
  writerWaiting :: bool

record Server =
  orphanBlocks :: "ID \<rightharpoonup> orphanBlock"
  orphanLock :: RWMutex
  activeInventory :: "ID \<rightharpoonup> Block"
  inventoryLock :: RWMutex
  inflightRequests :: "ID \<rightharpoonup> bool"
  inflightLock :: RWMutex
  policy :: "Policy option"
  calls :: "call list"

datatype 'a outcome = Returns 'a | Panics | Blocks

record env =
  headerID :: "BlockHeader \<Rightarrow> ID"
  nilBlockID :: "ID option"
  txID :: "Transaction \<Rightarrow> ID"
  checkConnectBlock :: "nat \<Rightarrow> Block \<Rightarrow> error option"
  getBlockByID :: "nat \<Rightarrow> ID \<Rightarrow> error + Block"
  mempoolDecodeXthinner :: "nat \<Rightarrow> XThinnerBlock \<Rightarrow> Block \<times> nat list"
  replyGetBlockTxs :: "nat \<Rightarrow> peer_ID \<Rightarrow> ID \<Rightarrow> nat list \<Rightarrow> error + ErrorResponse \<times> Transaction list"
  replyGetBlockTxids :: "nat \<Rightarrow> peer_ID \<Rightarrow> ID \<Rightarrow> error + ErrorResponse \<times> ID list"
  replyGetBlock :: "nat \<Rightarrow> peer_ID \<Rightarrow> ID \<Rightarrow> error + ErrorResponse \<times> Block"
  peers :: "nat \<Rightarrow> peer_ID list"
  rangeOrder :: "nat \<Rightarrow> ID list"
  timeNow :: "nat \<Rightarrow> int"

subsection \<open>Helpers of the model\<close>

definition tick :: "Server \<Rightarrow> nat" where
  "tick s = length (calls s)"

definition emit :: "call \<Rightarrow> Server \<Rightarrow> Server" where
  "emit c s = s\<lparr>calls := calls s @ [c]\<rparr>"

definition newCalls :: "Server \<Rightarrow> Server \<Rightarrow> call list" where
  "newCalls s s' = drop (length (calls s)) (calls s')"

text \<open>
  Modelled from the spec: \<^verbatim>\<open>Block.ID()\<close> and \<^verbatim>\<open>XThinnerBlock.ID()\<close> (package
  blocks) are a content hash over the header, the same for a block and for its
  compact encoding; the hash itself is the function \<open>headerID\<close> of the environment.
\<close>

definition Block_ID :: "env \<Rightarrow> Block \<Rightarrow> ID" where
  "Block_ID env b = headerID env (Header b)"

definition XThinnerBlock_ID :: "env \<Rightarrow> XThinnerBlock \<Rightarrow> ID" where
  "XThinnerBlock_ID env x = headerID env (XHeader x)"

definition unlocked :: RWMutex where
  "unlocked = \<lparr>writer = False, readers = 0, writerWaiting = False\<rparr>"

definition Lock :: "RWMutex \<Rightarrow> RWMutex option" where
  "Lock m = (if \<not> writer m \<and> readers m = 0 then Some (m\<lparr>writer := True\<rparr>) else None)"

definition Unlock :: "RWMutex \<Rightarrow> RWMutex" where
  "Unlock m = m\<lparr>writer := False\<rparr>"

definition RLock :: "RWMutex \<Rightarrow> RWMutex option" where
  "RLock m = (if \<not> writer m \<and> \<not> writerWaiting m then Some (m\<lparr>readers := Suc (readers m)\<rparr>) else None)"

definition RUnlock :: "RWMutex \<Rightarrow> RWMutex" where
  "RUnlock m = m\<lparr>readers := readers m - 1\<rparr>"

definition waitForLock :: "RWMutex \<Rightarrow> RWMutex" where
  "waitForLock m = m\<lparr>writerWaiting := True\<rparr>"

subsection \<open>The chain service, client side\<close>

definition GetBlockTxs ::
  "env \<Rightarrow> Server \<Rightarrow> peer_ID \<Rightarrow> ID \<Rightarrow> nat list \<Rightarrow> (error + Transaction list) \<times> Server" where
  "GetBlockTxs env s p blockID txIndexes =
     (let s1 = emit (SendRequest p (GetBlockTxsReq blockID txIndexes)) s in
      case replyGetBlockTxs env (tick s) p blockID txIndexes of
        Inl e \<Rightarrow> (Inl e, s1)
      | Inr (rerr, txs) \<Rightarrow>
          if rerr \<noteq> ErrorResponse_None then (Inl (ErrorResponseFromPeer rerr), s1)
          else if length txs \<noteq> length txIndexes
          then (Inl (DidNotReturnAllRequestedTxs p), emit (IncreaseBanscore p 50 0) s1)
          else (Inr txs, s1))"

definition GetBlockTxids ::
  "env \<Rightarrow> Server \<Rightarrow> peer_ID \<Rightarrow> ID \<Rightarrow> (error + ID list) \<times> Server" where
  "GetBlockTxids env s p blockID =
     (let s1 = emit (SendRequest p (GetBlockTxidsReq blockID)) s in
      case replyGetBlockTxids env (tick s) p blockID of
        Inl e \<Rightarrow> (Inl e, s1)
      | Inr (rerr, txids) \<Rightarrow>
          if rerr \<noteq> ErrorResponse_None then (Inl (ErrorResponseFromPeer rerr), s1)
          else (Inr txids, s1))"

definition GetBlock ::
  "env \<Rightarrow> Server \<Rightarrow> peer_ID \<Rightarrow> ID \<Rightarrow> (error + Block) \<times> Server" where
  "GetBlock env s p blockID =
     (let s1 = emit (SendRequest p (GetBlockReq blockID)) s in
      case replyGetBlock env (tick s) p blockID of
        Inl e \<Rightarrow> (Inl e, s1)
      | Inr (rerr, b) \<Rightarrow>
          if rerr \<noteq> ErrorResponse_None then (Inl (ErrorResponseFromPeer rerr), s1)
          else (Inr b, s1))"

subsection \<open>Patching a block with transactions fetched from a peer\<close>

text \<open>
  The loop \<^verbatim>\<open>for i, tx := range txs { blk.Transactions[missing[i]] = tx }\<close>.
  An index outside either slice is a run-time panic, the value \<open>None\<close> here.
\<close>

fun patchTxs :: "Transaction list \<Rightarrow> nat list \<Rightarrow> Transaction list \<Rightarrow> Transaction list option" where
  "patchTxs ts missing [] = Some ts"
| "patchTxs ts [] (tx # txs) = None"
| "patchTxs ts (m # missing) (tx # txs) =
     (if m < length ts then patchTxs (ts[m := tx]) missing txs else None)"

text \<open>
  The indices \<open>i\<close> with \<^verbatim>\<open>tx.ID() != txids[i]\<close>, in increasing order
  (lines 390 to 395 of \<^verbatim>\<open>fetchBlockTxids\<close>).
\<close>

definition mismatching :: "env \<Rightarrow> Transaction list \<Rightarrow> ID list \<Rightarrow> nat list" where
  "mismatching env ts txids = filter (\<lambda>i. txID env (ts ! i) \<noteq> txids ! i) [0..<length ts]"

text \<open>
  \<^verbatim>\<open>fetchBlockTxids\<close> receives a pointer, which \<^verbatim>\<open>processBlock\<close> may pass as nil.
  With a nil block, \<^verbatim>\<open>blk.ID()\<close> is evaluated first: the method belongs to package
  blocks, so its behaviour on a nil receiver is a parameter of the
  environment (\<open>None\<close>: it panics); if it answers, the next use of the block,
  \<^verbatim>\<open>len(blk.Transactions)\<close>, dereferences nil. Every failing return is \<^verbatim>\<open>nil, err\<close>
  and the only successful one is \<^verbatim>\<open>blk, nil\<close>, hence the sum type.
\<close>

definition fetchBlockTxids ::
  "env \<Rightarrow> Server \<Rightarrow> Block option \<Rightarrow> peer_ID \<Rightarrow> (error + Block) outcome \<times> Server" where
  "fetchBlockTxids env s blkp p =
     (case blkp of
        None \<Rightarrow>
          (case nilBlockID env of
             None \<Rightarrow> (Panics, s)
           | Some i \<Rightarrow>
               (case GetBlockTxids env s p i of
                  (Inl e, s1) \<Rightarrow> (Returns (Inl e), s1)
                | (Inr txids, s1) \<Rightarrow> (Panics, s1)))
      | Some b \<Rightarrow>
          (case GetBlockTxids env s p (Block_ID env b) of
             (Inl e, s1) \<Rightarrow> (Returns (Inl e), s1)
           | (Inr txids, s1) \<Rightarrow>
               if length txids \<noteq> length (Transactions b)
               then (Returns (Inl UnexpectedNumberOfIDs), s1)
               else
                 (let missing = mismatching env (Transactions b) txids in
                  if length missing = 0 then (Returns (Inl BlockInvalid), s1)
                  else
                    (case GetBlockTxs env s1 p (Block_ID env b) missing of
                       (Inl e, s2) \<Rightarrow> (Returns (Inl e), s2)
                     | (Inr txs, s2) \<Rightarrow>
                         (case patchTxs (Transactions b) missing txs of
                            None \<Rightarrow> (Panics, s2)
                          | Some ts \<Rightarrow> (Returns (Inr (b\<lparr>Transactions := ts\<rparr>)), s2))))))"

subsection \<open>decodeXthinner\<close>

text \<open>The loop over the connected peers (lines 366 to 377).\<close>

fun decodeFromPeers ::
  "env \<Rightarrow> Server \<Rightarrow> Block \<Rightarrow> ID \<Rightarrow> nat list \<Rightarrow> peer_ID list \<Rightarrow> (Block \<times> error option) outcome \<times> Server" where
  "decodeFromPeers env s b xid missing [] = (Returns (b, None), s)"
| "decodeFromPeers env s b xid missing (pid # pids) =
     (case GetBlockTxs env s pid xid missing of
        (Inr txs, s1) \<Rightarrow>
          (case patchTxs (Transactions b) missing txs of
             None \<Rightarrow> (Panics, s1)
           | Some ts \<Rightarrow> (Returns (b\<lparr>Transactions := ts\<rparr>, None), s1))
      | (Inl e, s1) \<Rightarrow> decodeFromPeers env s1 b xid missing pids)"

definition decodeXthinner ::
  "env \<Rightarrow> Server \<Rightarrow> XThinnerBlock \<Rightarrow> peer_ID \<Rightarrow> (Block \<times> error option) outcome \<times> Server" where
  "decodeXthinner env s xThinnerBlk relayingPeer =
     (let (b, missing) = mempoolDecodeXthinner env (tick s) xThinnerBlk;
          s0 = emit (DecodeXthinner xThinnerBlk) s in
      if length missing > 0 then
        (case GetBlockTxs env s0 relayingPeer (XThinnerBlock_ID env xThinnerBlk) missing of
           (Inr txs, s1) \<Rightarrow>
             (case patchTxs (Transactions b) missing txs of
                None \<Rightarrow> (Panics, s1)
              | Some ts \<Rightarrow> (Returns (b\<lparr>Transactions := ts\<rparr>, None), s1))
         | (Inl e, s1) \<Rightarrow>
             (let s2 = emit (IncreaseBanscore relayingPeer 34 0) s1 in
              decodeFromPeers env s2 b (XThinnerBlock_ID env xThinnerBlk) missing (peers env (tick s2))))
      else (Returns (b, None), s0))"

subsection \<open>processBlock\<close>

text \<open>
  The loop of lines 277 to 282, up to its \<^verbatim>\<open>return s.processBlock(blk, relayingPeer, true)\<close>:
  the result is the block of the first peer whose \<^verbatim>\<open>fetchBlockTxids\<close> succeeded,
  or \<open>None\<close> when the loop ran to its end. The loop variable \<^verbatim>\<open>blk\<close> is the one
  declared on line 273; after a failed call it is nil.
\<close>

fun fetchFromPeers ::
  "env \<Rightarrow> Server \<Rightarrow> Block option \<Rightarrow> peer_ID list \<Rightarrow> Block option outcome \<times> Server" where
  "fetchFromPeers env s blkp [] = (Returns None, s)"
| "fetchFromPeers env s blkp (pid # pids) =
     (case fetchBlockTxids env s blkp pid of
        (Returns r, s1) \<Rightarrow>
          (case r of
             Inr b \<Rightarrow> (Returns (Some b), s1)
           | Inl e \<Rightarrow> fetchFromPeers env s1 None pids)
      | (Panics, s1) \<Rightarrow> (Panics, s1)
      | (Blocks, s1) \<Rightarrow> (Blocks, s1))"

text \<open>
  Lines 303 to 350: the block enters \<^verbatim>\<open>activeInventory\<close>, leaves
  \<^verbatim>\<open>orphanBlocks\<close>, is announced to the consensus engine, and a goroutine is started
  that waits for the verdict.
\<close>

definition acceptBlock :: "env \<Rightarrow> Server \<Rightarrow> Block \<Rightarrow> error option outcome \<times> Server" where
  "acceptBlock env s b =
     (case Lock (inventoryLock s) of
        None \<Rightarrow> (Blocks, s\<lparr>inventoryLock := waitForLock (inventoryLock s)\<rparr>)
      | Some l \<Rightarrow>
          (let s1 = s\<lparr>activeInventory := (activeInventory s)(Block_ID env b \<mapsto> b),
                      inventoryLock := Unlock l\<rparr> in
           case Lock (orphanLock s1) of
             None \<Rightarrow> (Blocks, s1\<lparr>orphanLock := waitForLock (orphanLock s1)\<rparr>)
           | Some l' \<Rightarrow>
               (let s2 = s1\<lparr>orphanBlocks := (orphanBlocks s1)(Block_ID env b := None),
                           orphanLock := Unlock l'\<rparr>;
                    s3 = emit (NewBlock (Block_ID env b) True) s2;
                    s4 = emit (GoWaiter b) s3
                in (Returns None, s4))))"

function processBlock ::
  "env \<Rightarrow> Server \<Rightarrow> Block \<Rightarrow> peer_ID \<Rightarrow> bool \<Rightarrow> error option outcome \<times> Server" where
  "processBlock env s0 b relayingPeer recheck =
     (let err = checkConnectBlock env (tick s0) b;
          s = emit (CheckConnectBlock b) s0 in
      case err of
        None \<Rightarrow> acceptBlock env s b
      | Some e \<Rightarrow>
          (case e of
             OrphanBlockError \<Rightarrow>
               (case Lock (orphanLock s) of
                  None \<Rightarrow> (Blocks, s\<lparr>orphanLock := waitForLock (orphanLock s)\<rparr>)
                | Some l \<Rightarrow>
                    (Returns err,
                     s\<lparr>orphanBlocks := (orphanBlocks s)(Block_ID env b \<mapsto>
                          \<lparr>orphan_blk = b, orphan_relayingPeer = relayingPeer,
                            orphan_firstSeen = timeNow env (tick s)\<rparr>),
                       orphanLock := Unlock l\<rparr>))
           | RuleError code \<Rightarrow>
               if recheck then (Returns err, emit (IncreaseBanscore relayingPeer 34 0) s)
               else if code = ErrInvalidTxRoot then
                 (case fetchBlockTxids env s (Some b) relayingPeer of
                    (Returns r, s1) \<Rightarrow>
                      (case r of
                         Inr b' \<Rightarrow> processBlock env s1 b' relayingPeer True
                       | Inl e' \<Rightarrow>
                           (let s2 = emit (IncreaseBanscore relayingPeer 34 0) s1 in
                            case fetchFromPeers env s2 None (peers env (tick s2)) of
                              (Returns found, s3) \<Rightarrow>
                                (case found of
                                   Some b' \<Rightarrow> processBlock env s3 b' relayingPeer True
                                 | None \<Rightarrow> (Returns err, s3))
                            | (Panics, s3) \<Rightarrow> (Panics, s3)
                            | (Blocks, s3) \<Rightarrow> (Blocks, s3)))
                  | (Panics, s1) \<Rightarrow> (Panics, s1)
                  | (Blocks, s1) \<Rightarrow> (Blocks, s1))
               else if code = ErrDoesNotConnect
               then (Returns err, emit (IncreaseBanscore relayingPeer 0 10) s)
               else (Returns err, emit (IncreaseBanscore relayingPeer 101 0) s)
           | _ \<Rightarrow> (Returns err, s)))"
  by pat_completeness auto
termination
  by (relation "measure (\<lambda>(env, s, b, p, recheck). if recheck then 0 else 1)") auto

declare processBlock.simps [simp del]

subsection \<open>The goroutine that waits for the consensus verdict\<close>

text \<open>
  The \<^verbatim>\<open>select\<close> of line 318 ends with a status on the callback channel or with the
  cancellation of the server's context. On \<^verbatim>\<open>StatusFinalized\<close> the block is
  connected; the result of \<^verbatim>\<open>ConnectBlock\<close> only chooses the line that is logged.
\<close>

datatype wakeup = Callback Status | CtxDone

text \<open>
  The loop \<^verbatim>\<open>for _, orphan := range s.orphanBlocks\<close> up to its \<^verbatim>\<open>break\<close>: the
  first orphan, in the order in which the run time visits the map, whose height is
  the height of the resolved block plus one (in 32-bit arithmetic).
\<close>

fun firstOrphanAbove :: "(ID \<rightharpoonup> orphanBlock) \<Rightarrow> 32 word \<Rightarrow> ID list \<Rightarrow> orphanBlock option" where
  "firstOrphanAbove m h [] = None"
| "firstOrphanAbove m h (k # ks) =
     (case m k of
        None \<Rightarrow> firstOrphanAbove m h ks
      | Some orphan \<Rightarrow>
          if Height (Header (orphan_blk orphan)) = h + 1 then Some orphan
          else firstOrphanAbove m h ks)"

definition waiter :: "env \<Rightarrow> Server \<Rightarrow> Block \<Rightarrow> wakeup \<Rightarrow> unit outcome \<times> Server" where
  "waiter env s b w =
     (case w of
        CtxDone \<Rightarrow> (Returns (), s)
      | Callback status \<Rightarrow>
          (let s1 = (case status of
                       StatusFinalized \<Rightarrow> emit (ConnectBlock b) s
                     | StatusRejected \<Rightarrow> s) in
           case Lock (inventoryLock s1) of
             None \<Rightarrow> (Blocks, s1\<lparr>inventoryLock := waitForLock (inventoryLock s1)\<rparr>)
           | Some l \<Rightarrow>
               (let s2 = s1\<lparr>activeInventory := (activeInventory s1)(Block_ID env b := None),
                           inventoryLock := Unlock l\<rparr> in
                case Lock (orphanLock s2) of
                  None \<Rightarrow> (Blocks, s2\<lparr>orphanLock := waitForLock (orphanLock s2)\<rparr>)
                | Some l' \<Rightarrow>
                    (let s3 = s2\<lparr>orphanLock := l'\<rparr> in
                     case firstOrphanAbove (orphanBlocks s3) (Height (Header b))
                            (rangeOrder env (tick s3)) of
                       None \<Rightarrow> (Returns (), s3\<lparr>orphanLock := Unlock (orphanLock s3)\<rparr>)
                     | Some orphan \<Rightarrow>
                         (case processBlock env s3 (orphan_blk orphan)
                                 (orphan_relayingPeer orphan) False of
                            (Returns r, s4) \<Rightarrow>
                              (Returns (), s4\<lparr>orphanLock := Unlock (orphanLock s4)\<rparr>)
                          | (Panics, s4) \<Rightarrow> (Panics, s4)
                          | (Blocks, s4) \<Rightarrow> (Blocks, s4))))))"

subsection \<open>handleIncomingBlock, fetchBlock, requestBlock\<close>

definition handleIncomingBlock ::
  "env \<Rightarrow> Server \<Rightarrow> XThinnerBlock \<Rightarrow> peer_ID \<Rightarrow> error option outcome \<times> Server" where
  "handleIncomingBlock env s xThinnerBlk p =
     (case decodeXthinner env s xThinnerBlk p of
        (Returns (b, err), s1) \<Rightarrow>
          (if err \<noteq> None then (Returns err, s1) else processBlock env s1 b p False)
      | (Panics, s1) \<Rightarrow> (Panics, s1)
      | (Blocks, s1) \<Rightarrow> (Blocks, s1))"

definition fetchBlock :: "env \<Rightarrow> Server \<Rightarrow> ID \<Rightarrow> (error + Block) outcome \<times> Server" where
  "fetchBlock env s blockID =
     (case RLock (inventoryLock s) of
        None \<Rightarrow> (Blocks, s)
      | Some l \<Rightarrow>
          (case activeInventory s blockID of
             Some b \<Rightarrow> (Returns (Inr b), s\<lparr>inventoryLock := RUnlock l\<rparr>)
           | None \<Rightarrow> (Returns (getBlockByID env (tick s) blockID), s\<lparr>inventoryLock := RUnlock l\<rparr>)))"

text \<open>The function handed to \<^verbatim>\<open>time.AfterFunc\<close> on line 442.\<close>

definition inflightExpire :: "Server \<Rightarrow> ID \<Rightarrow> unit outcome \<times> Server" where
  "inflightExpire s blockID =
     (case Lock (inflightLock s) of
        None \<Rightarrow> (Blocks, s\<lparr>inflightLock := waitForLock (inflightLock s)\<rparr>)
      | Some l \<Rightarrow>
          (Returns (), s\<lparr>inflightRequests := (inflightRequests s)(blockID := None),
                         inflightLock := Unlock l\<rparr>))"

text \<open>
  Line 421 takes the read lock, line 423 gives it back when the request is already
  in flight; otherwise line 426 takes the read lock a second time and line 428 asks
  for the write lock.
\<close>

definition requestBlock :: "env \<Rightarrow> Server \<Rightarrow> ID \<Rightarrow> peer_ID \<Rightarrow> unit outcome \<times> Server" where
  "requestBlock env s blockID remotePeer =
     (case RLock (inflightLock s) of
        None \<Rightarrow> (Blocks, s)
      | Some l1 \<Rightarrow>
          if inflightRequests s blockID \<noteq> None
          then (Returns (), s\<lparr>inflightLock := RUnlock l1\<rparr>)
          else
            (case RLock l1 of
               None \<Rightarrow> (Blocks, s\<lparr>inflightLock := l1\<rparr>)
             | Some l2 \<Rightarrow>
                 (case Lock l2 of
                    None \<Rightarrow> (Blocks, s\<lparr>inflightLock := waitForLock l2\<rparr>)
                  | Some l3 \<Rightarrow>
                      (let s1 = s\<lparr>inflightRequests := (inflightRequests s)(blockID \<mapsto> True),
                                  inflightLock := Unlock l3\<rparr> in
                       case GetBlock env s1 remotePeer blockID of
                         (Inl e, s2) \<Rightarrow> inflightExpire s2 blockID
                       | (Inr b, s2) \<Rightarrow>
                           (case processBlock env s2 b remotePeer False of
                              (Returns r, s3) \<Rightarrow> (Returns (), emit (AfterFunc 5 blockID) s3)
                            | (Panics, s3) \<Rightarrow> (Panics, s3)
                            | (Blocks, s3) \<Rightarrow> (Blocks, s3))))))"

subsection \<open>BuildServer\<close>

record Config =
  cfg_MinFeePerByte :: nat
  cfg_MinStake :: nat
  cfg_BlocksizeSoftLimit :: nat
  cfg_MaxMessageSize :: nat
  cfg_TreasuryWhitelist :: "string list"
  cfg_DropTxIndex :: bool

text \<open>
  What the constructors called by \<^verbatim>\<open>BuildServer\<close> answer; their code is in other
  packages. \<open>None\<close> is a nil error.
\<close>

record builders =
  setupLogging :: "error option"
  NewIDFromString :: "string \<Rightarrow> error + ID"
  NewDatastore :: "error option"
  HasNetworkKey :: "error + bool"
  LoadNetworkKey :: "error option"
  GenerateNetworkKeypair :: "error option"
  PutNetworkKey :: "error option"
  DropTxIndex :: "error option"
  NewBlockchain :: "error option"
  NewMempool :: "error option"
  NewNetwork :: "error option"
  NewConsensusEngine :: "error option"

text \<open>\<^verbatim>\<open>s := Server{}\<close>: every field has its zero value; \<^verbatim>\<open>s.policy\<close> is nil.\<close>

definition zeroServer :: Server where
  "zeroServer = \<lparr>orphanBlocks = Map.empty, orphanLock = unlocked,
                  activeInventory = Map.empty, inventoryLock = unlocked,
                  inflightRequests = Map.empty, inflightLock = unlocked,
                  policy = None, calls = []\<rparr>"

text \<open>
  The loop of lines 81 to 87. It appends to \<^verbatim>\<open>s.policy.TreasuryWhitelist\<close>, the
  field of the server, not to the local variable \<^verbatim>\<open>policy\<close>.
\<close>

fun whitelistLoop :: "builders \<Rightarrow> Server \<Rightarrow> string list \<Rightarrow> (error option \<times> Server) outcome" where
  "whitelistLoop bs s [] = Returns (None, s)"
| "whitelistLoop bs s (x # xs) =
     (case NewIDFromString bs x of
        Inl e \<Rightarrow> Returns (Some e, s)
      | Inr w \<Rightarrow>
          (case policy s of
             None \<Rightarrow> Panics
           | Some pol \<Rightarrow>
               whitelistLoop bs
                 (s\<lparr>policy := Some (pol\<lparr>TreasuryWhitelist := TreasuryWhitelist pol @ [w]\<rparr>)\<rparr>) xs))"

text \<open>Lines 99 to 124: the datastore and the network key.\<close>

definition setupKey :: "builders \<Rightarrow> error option" where
  "setupKey bs =
     (case HasNetworkKey bs of
        Inl e \<Rightarrow> Some e
      | Inr has \<Rightarrow>
          if has then LoadNetworkKey bs
          else (case GenerateNetworkKeypair bs of
                  Some e \<Rightarrow> Some e
                | None \<Rightarrow> PutNetworkKey bs))"

text \<open>The first error among the steps, in the order in which they are taken.\<close>

fun firstError :: "error option list \<Rightarrow> error option" where
  "firstError [] = None"
| "firstError (None # es) = firstError es"
| "firstError (Some e # es) = Some e"

definition BuildServer :: "builders \<Rightarrow> Config \<Rightarrow> (error + Server) outcome" where
  "BuildServer bs config =
     (let s = zeroServer in
      case setupLogging bs of
        Some e \<Rightarrow> Returns (Inl e)
      | None \<Rightarrow>
          (let pol = \<lparr>MinFeePerByte = cfg_MinFeePerByte config,
                      MinStake = cfg_MinStake config,
                      BlocksizeSoftLimit = cfg_BlocksizeSoftLimit config,
                      MaxMessageSize = cfg_MaxMessageSize config,
                      TreasuryWhitelist = []\<rparr> in
           case whitelistLoop bs s (cfg_TreasuryWhitelist config) of
             Panics \<Rightarrow> Panics
           | Blocks \<Rightarrow> Blocks
           | Returns (err, s1) \<Rightarrow>
               (case err of
                  Some e \<Rightarrow> Returns (Inl e)
                | None \<Rightarrow>
                    (case firstError
                            [NewDatastore bs, setupKey bs,
                             (if cfg_DropTxIndex config then DropTxIndex bs else None),
                             NewBlockchain bs, NewMempool bs, NewNetwork bs,
                             NewConsensusEngine bs] of
                       Some e \<Rightarrow> Returns (Inl e)
                     | None \<Rightarrow>
                         Returns (Inr (s1\<lparr>orphanBlocks := Map.empty,
                                          activeInventory := Map.empty,
                                          inflightRequests := Map.empty,
                                          orphanLock := unlocked,
                                          inventoryLock := unlocked,
                                          inflightLock := unlocked,
                                          policy := Some pol\<rparr>))))))"

subsection \<open>Vocabulary of the properties\<close>

text \<open>
  The two ways in which a peer's answer to \<^verbatim>\<open>GetBlockTxs\<close> makes the call fail:
  the request could not be sent or the response carries an error code; or the
  response is a success with a number of transactions other than the number of indices
  asked for.
\<close>

definition errorReply :: "error + ErrorResponse \<times> Transaction list \<Rightarrow> bool" where
  "errorReply r = (case r of Inl e \<Rightarrow> True | Inr (rerr, txs) \<Rightarrow> rerr \<noteq> ErrorResponse_None)"

definition incompleteReply :: "error + ErrorResponse \<times> Transaction list \<Rightarrow> nat list \<Rightarrow> bool" where
  "incompleteReply r ixs =
     (case r of Inl e \<Rightarrow> False
      | Inr (rerr, txs) \<Rightarrow> rerr = ErrorResponse_None \<and> length txs \<noteq> length ixs)"

text \<open>The behavioural ban score that a list of calls adds to a peer.\<close>

fun behavioral :: "peer_ID \<Rightarrow> call list \<Rightarrow> nat" where
  "behavioral p [] = 0"
| "behavioral p (c # cs) =
     (case c of IncreaseBanscore q b t \<Rightarrow> (if q = p then b else 0) | _ \<Rightarrow> 0) + behavioral p cs"

text \<open>
  What the loop over the connected peers in \<^verbatim>\<open>decodeXthinner\<close> adds to the log when
  it starts at time \<open>t\<close>: each peer in turn is sent the request, until one answers
  without failure; a peer whose response has the wrong length receives the +50 of
  \<^verbatim>\<open>GetBlockTxs\<close>, and there is no other call.
\<close>

fun helperCalls :: "env \<Rightarrow> nat \<Rightarrow> ID \<Rightarrow> nat list \<Rightarrow> peer_ID list \<Rightarrow> call list" where
  "helperCalls env t xid missing [] = []"
| "helperCalls env t xid missing (q # qs) =
     SendRequest q (GetBlockTxsReq xid missing) #
       (if incompleteReply (replyGetBlockTxs env t q xid missing) missing
        then IncreaseBanscore q 50 0 # helperCalls env (t + 2) xid missing qs
        else if errorReply (replyGetBlockTxs env t q xid missing)
        then helperCalls env (t + 1) xid missing qs
        else [])"

text \<open>
  The indices that the mempool's decoder reports missing lie inside the block it
  returns. The decoder's code is in package mempool; this is what its result must
  satisfy for the writes \<^verbatim>\<open>blk.Transactions[missing[i]] = tx\<close> to stay in range.
\<close>

definition decoded_in_range :: "env \<Rightarrow> Server \<Rightarrow> XThinnerBlock \<Rightarrow> bool" where
  "decoded_in_range env s x =
     list_all (\<lambda>i. i < length (Transactions (fst (mempoolDecodeXthinner env (tick s) x))))
       (snd (mempoolDecodeXthinner env (tick s) x))"

text \<open>A mutex that nobody holds.\<close>

definition free :: "RWMutex \<Rightarrow> bool" where
  "free m = (\<not> writer m \<and> readers m = 0)"

text \<open>
  Kinds of calls in the log: announcements to the consensus engine; requests to peers
  and changes of ban scores.
\<close>

definition isNewBlock :: "call \<Rightarrow> bool" where
  "isNewBlock c = (case c of NewBlock i pref \<Rightarrow> True | _ \<Rightarrow> False)"

definition isRpc :: "call \<Rightarrow> bool" where
  "isRpc c = (case c of SendRequest q r \<Rightarrow> True | IncreaseBanscore q b t \<Rightarrow> True | _ \<Rightarrow> False)"

text \<open>
  What one call of \<^verbatim>\<open>processBlock\<close> on the block \<open>b\<close> may add to the log: the
  chain is asked only about blocks with the header of \<open>b\<close>, and the consensus engine
  is told of at most one block.
\<close>

definition shape :: "Block \<Rightarrow> call list \<Rightarrow> bool" where
  "shape b evs = ((\<forall>b'. CheckConnectBlock b' \<in> set evs \<longrightarrow> Header b' = Header b)
                  \<and> length (filter isNewBlock evs) \<le> 1)"

text \<open>Nothing but the log of calls differs between two servers.\<close>

definition frame :: "Server \<Rightarrow> Server \<Rightarrow> bool" where
  "frame s s' = (s' = s\<lparr>calls := calls s'\<rparr>)"

text \<open>The calls of the waiter before it touches the maps: the block is connected on a
  finalize, nothing is called on a reject.\<close>

definition verdictCalls :: "Status \<Rightarrow> Block \<Rightarrow> call list" where
  "verdictCalls st b = (case st of StatusFinalized \<Rightarrow> [ConnectBlock b] | StatusRejected \<Rightarrow> [])"

subsection \<open>Concrete blocks, servers and environments\<close>

text \<open>
  Small inputs on which the definitions above are evaluated. In these environments a
  block's ID is its height and a transaction's ID is its first byte.
\<close>

definition exampleHeader :: "32 word \<Rightarrow> BlockHeader" where
  "exampleHeader h = \<lparr>Version = 1, Height = h, Parent = [], Timestamp = 0, TxRoot = [],
                       Producer_ID = [], Signature = []\<rparr>"

definition exampleBlock :: "32 word \<Rightarrow> Transaction list \<Rightarrow> Block" where
  "exampleBlock h txs = \<lparr>Header = exampleHeader h, Transactions = txs\<rparr>"

definition quietEnv :: env where
  "quietEnv =
     \<lparr>headerID = (\<lambda>h. ucast (Height h)),
      nilBlockID = None,
      txID = (\<lambda>tx. case tx of [] \<Rightarrow> 0 | x # xs \<Rightarrow> ucast x),
      checkConnectBlock = (\<lambda>n b. None),
      getBlockByID = (\<lambda>n i. Inl (OtherError ''not found'')),
      mempoolDecodeXthinner = (\<lambda>n x. (\<lparr>Header = XHeader x, Transactions = []\<rparr>, [])),
      replyGetBlockTxs = (\<lambda>n p i ixs. Inl (OtherError ''no route'')),
      replyGetBlockTxids = (\<lambda>n p i. Inl (OtherError ''no route'')),
      replyGetBlock = (\<lambda>n p i. Inl (OtherError ''no route'')),
      peers = (\<lambda>n. []),
      rangeOrder = (\<lambda>n. []),
      timeNow = (\<lambda>n. 0)\<rparr>"

definition ruleEnv :: "ErrorCode \<Rightarrow> env" where
  "ruleEnv code = quietEnv\<lparr>checkConnectBlock := (\<lambda>n b. Some (RuleError code))\<rparr>"

definition exampleX :: XThinnerBlock where
  "exampleX = \<lparr>XHeader = exampleHeader 5, XEncoded = []\<rparr>"

text \<open>
  The mempool knows the first and the third of three transactions; every peer answers
  the request for the second one with \<open>r\<close>.
\<close>

definition missingEnv :: "(error + ErrorResponse \<times> Transaction list) \<Rightarrow> env" where
  "missingEnv r = quietEnv\<lparr>mempoolDecodeXthinner :=
                              (\<lambda>n x. (\<lparr>Header = XHeader x, Transactions = [[1], [], [3]]\<rparr>, [1])),
                           replyGetBlockTxs := (\<lambda>n p i ixs. r)\<rparr>"

text \<open>
  A peer that lists the txid 2 for the only transaction of a block and then supplies a
  transaction whose ID is 9.
\<close>

definition liarEnv :: env where
  "liarEnv = quietEnv\<lparr>replyGetBlockTxids := (\<lambda>n p i. Inr (ErrorResponse_None, [2])),
                       replyGetBlockTxs := (\<lambda>n p i ixs. Inr (ErrorResponse_None, [[9]]))\<rparr>"

text \<open>As \<open>missingEnv\<close>, with one connected peer \<open>B\<close>.\<close>

definition helperEnv :: "(error + ErrorResponse \<times> Transaction list) \<Rightarrow> env" where
  "helperEnv r = (missingEnv r)\<lparr>peers := (\<lambda>n. [''B''])\<rparr>"

text \<open>
  As \<open>missingEnv\<close>, with the connected peers \<open>A\<close> and \<open>B\<close>, where \<open>A\<close> is the peer
  that announces the block.
\<close>

definition selfEnv :: "(error + ErrorResponse \<times> Transaction list) \<Rightarrow> env" where
  "selfEnv r = (missingEnv r)\<lparr>peers := (\<lambda>n. [''A'', ''B''])\<rparr>"

text \<open>
  The chain accepts block 5 only with the transaction of ID 2; the mempool put ID 1
  there. Peer \<open>A\<close>, who relayed the block, does not answer; peer \<open>B\<close> is connected
  and answers every request correctly.
\<close>

definition repairEnv :: "ID option \<Rightarrow> env" where
  "repairEnv nilID =
     quietEnv\<lparr>nilBlockID := nilID,
              checkConnectBlock :=
                (\<lambda>n b. if Transactions b = [[2]] then None else Some (RuleError ErrInvalidTxRoot)),
              replyGetBlockTxids :=
                (\<lambda>n p i. if p = ''A'' then Inl (OtherError ''stream reset'')
                          else Inr (ErrorResponse_None, [2])),
              replyGetBlockTxs := (\<lambda>n p i ixs. Inr (ErrorResponse_None, [[2]])),
              peers := (\<lambda>n. [''B''])\<rparr>"

text \<open>
  A server whose consensus engine is deciding block 5 and which holds block 6, relayed
  by \<open>O\<close>, as an orphan; an environment in which the chain answers every check with
  \<open>r\<close> and the map of orphans is visited in the order \<open>[6]\<close>.
\<close>

definition orphanServer :: Server where
  "orphanServer =
     zeroServer\<lparr>orphanBlocks := [6 \<mapsto> \<lparr>orphan_blk = exampleBlock 6 [], orphan_relayingPeer = ''O'',
                                      orphan_firstSeen = 0\<rparr>],
                activeInventory := [5 \<mapsto> exampleBlock 5 []]\<rparr>"

definition orphanEnv :: "error option \<Rightarrow> env" where
  "orphanEnv r = quietEnv\<lparr>rangeOrder := (\<lambda>n. [6]), checkConnectBlock := (\<lambda>n b. r)\<rparr>"

text \<open>Every peer serves block 7 on request.\<close>

definition servingEnv :: env where
  "servingEnv = quietEnv\<lparr>replyGetBlock := (\<lambda>n p i. Inr (ErrorResponse_None, exampleBlock 7 []))\<rparr>"

text \<open>
  Constructors that all succeed, with a parser of IDs that accepts only the string
  \<open>00\<close>; a configuration with a given whitelist.
\<close>

definition okBuilders :: builders where
  "okBuilders =
     \<lparr>setupLogging = None,
      NewIDFromString = (\<lambda>x. if x = ''00'' then Inr 0 else Inl (OtherError ''invalid id'')),
      NewDatastore = None, HasNetworkKey = Inr True, LoadNetworkKey = None,
      GenerateNetworkKeypair = None, PutNetworkKey = None, DropTxIndex = None,
      NewBlockchain = None, NewMempool = None, NewNetwork = None, NewConsensusEngine = None\<rparr>"

definition exampleConfig :: "string list \<Rightarrow> Config" where
  "exampleConfig wl =
     \<lparr>cfg_MinFeePerByte = 10, cfg_MinStake = 1000, cfg_BlocksizeSoftLimit = 1000000,
      cfg_MaxMessageSize = 4000000, cfg_TreasuryWhitelist = wl, cfg_DropTxIndex = False\<rparr>"

section \<open>Properties\<close>

lemmas example_defs =
  quietEnv_def zeroServer_def exampleBlock_def exampleHeader_def
  GetBlockTxids_def GetBlockTxs_def GetBlock_def Block_ID_def XThinnerBlock_ID_def
  mismatching_def emit_def tick_def newCalls_def Let_def
  decodeXthinner_def fetchBlockTxids_def errorReply_def incompleteReply_def

lemmas run_defs =
  processBlock.simps acceptBlock_def Lock_def Unlock_def RLock_def RUnlock_def
  waitForLock_def unlocked_def waiter_def requestBlock_def inflightExpire_def

subsection \<open>Penalties for a block that breaks a rule\<close>

text \<open>
  Claim C7. When \<^verbatim>\<open>CheckConnectBlock\<close> answers with a \<^verbatim>\<open>RuleError\<close>:
  on a recheck, \<^verbatim>\<open>processBlock\<close> makes exactly one call
  \<^verbatim>\<open>IncreaseBanscore(relayingPeer, 34, 0)\<close> and returns the error; on a first
  check, when the error is neither \<^verbatim>\<open>ErrInvalidTxRoot\<close> nor \<^verbatim>\<open>ErrDoesNotConnect\<close>,
  it makes exactly one call \<^verbatim>\<open>IncreaseBanscore(relayingPeer, 101, 0)\<close> and returns
  the error. Nothing else in the server changes.
\<close>

theorem processBlock_rule_error_penalty:
  assumes "checkConnectBlock env (tick s) b = Some (RuleError code)"
  shows "(recheck \<longrightarrow>
            processBlock env s b p recheck =
              (Returns (Some (RuleError code)),
               s\<lparr>calls := calls s @ [CheckConnectBlock b, IncreaseBanscore p 34 0]\<rparr>))
       \<and> (\<not> recheck \<and> code \<noteq> ErrInvalidTxRoot \<and> code \<noteq> ErrDoesNotConnect \<longrightarrow>
            processBlock env s b p recheck =
              (Returns (Some (RuleError code)),
               s\<lparr>calls := calls s @ [CheckConnectBlock b, IncreaseBanscore p 101 0]\<rparr>))"
  using assms by (simp add: processBlock.simps Let_def emit_def)

theorem processBlock_rule_error_penalty_witness:
  "checkConnectBlock (ruleEnv ErrInvalidTxRoot) (tick zeroServer) (exampleBlock 5 [])
     = Some (RuleError ErrInvalidTxRoot)
   \<and> processBlock (ruleEnv ErrInvalidTxRoot) zeroServer (exampleBlock 5 []) ''A'' True =
       (Returns (Some (RuleError ErrInvalidTxRoot)),
        zeroServer\<lparr>calls := [CheckConnectBlock (exampleBlock 5 []), IncreaseBanscore ''A'' 34 0]\<rparr>)
   \<and> checkConnectBlock (ruleEnv (ErrOtherRule 7)) (tick zeroServer) (exampleBlock 5 [])
     = Some (RuleError (ErrOtherRule 7))
   \<and> ErrOtherRule 7 \<noteq> ErrInvalidTxRoot \<and> ErrOtherRule 7 \<noteq> ErrDoesNotConnect
   \<and> processBlock (ruleEnv (ErrOtherRule 7)) zeroServer (exampleBlock 5 []) ''A'' False =
       (Returns (Some (RuleError (ErrOtherRule 7))),
        zeroServer\<lparr>calls := [CheckConnectBlock (exampleBlock 5 []), IncreaseBanscore ''A'' 101 0]\<rparr>)"
  using processBlock_rule_error_penalty
          [of "ruleEnv ErrInvalidTxRoot" zeroServer "exampleBlock 5 []" ErrInvalidTxRoot True "''A''"]
        processBlock_rule_error_penalty
          [of "ruleEnv (ErrOtherRule 7)" zeroServer "exampleBlock 5 []" "ErrOtherRule 7" False "''A''"]
  by (simp add: ruleEnv_def quietEnv_def zeroServer_def)

subsection \<open>Facts about the chain service client and about patching\<close>

lemma GetBlockTxs_length:
  "GetBlockTxs env s p i ixs = (Inr txs, s') \<Longrightarrow> length txs = length ixs"
  by (auto simp: GetBlockTxs_def Let_def split: sum.splits prod.splits if_splits)

lemma GetBlockTxs_reply:
  "GetBlockTxs env s p i ixs = (Inr txs, s') \<Longrightarrow>
     replyGetBlockTxs env (tick s) p i ixs = Inr (ErrorResponse_None, txs)"
  by (auto simp: GetBlockTxs_def Let_def split: sum.splits prod.splits if_splits)

lemma GetBlockTxs_calls:
  "calls (snd (GetBlockTxs env s p i ixs)) =
     calls s @ SendRequest p (GetBlockTxsReq i ixs) #
       (if incompleteReply (replyGetBlockTxs env (tick s) p i ixs) ixs
        then [IncreaseBanscore p 50 0] else [])"
  by (auto simp: GetBlockTxs_def Let_def emit_def incompleteReply_def split: sum.splits prod.splits)

lemma GetBlockTxs_fails:
  "(\<exists>e. fst (GetBlockTxs env s p i ixs) = Inl e) \<longleftrightarrow>
     errorReply (replyGetBlockTxs env (tick s) p i ixs)
     \<or> incompleteReply (replyGetBlockTxs env (tick s) p i ixs) ixs"
  by (auto simp: GetBlockTxs_def Let_def errorReply_def incompleteReply_def split: sum.splits prod.splits)

lemma GetBlockTxids_reply:
  "GetBlockTxids env s p i = (Inr txids, s') \<Longrightarrow>
     replyGetBlockTxids env (tick s) p i = Inr (ErrorResponse_None, txids) \<and> tick s' = Suc (tick s)"
  by (auto simp: GetBlockTxids_def Let_def emit_def tick_def split: sum.splits prod.splits if_splits)

lemma patchTxs_in_range:
  "length txs = length missing \<Longrightarrow> \<forall>i\<in>set missing. i < length ts \<Longrightarrow>
     \<exists>ts'. patchTxs ts missing txs = Some ts' \<and> length ts' = length ts"
proof (induction ts missing txs rule: patchTxs.induct)
  case (1 ts missing)
  then show ?case by simp
next
  case (2 ts tx txs)
  then show ?case by simp
next
  case (3 ts m missing tx txs)
  then show ?case by simp
qed

lemma patchTxs_length:
  "patchTxs ts missing txs = Some ts' \<Longrightarrow> length ts' = length ts"
  by (induction ts missing txs rule: patchTxs.induct) (auto split: if_splits)

lemma patchTxs_nth_other:
  "patchTxs ts missing txs = Some ts' \<Longrightarrow> i \<notin> set missing \<Longrightarrow> ts' ! i = ts ! i"
  by (induction ts missing txs rule: patchTxs.induct) (auto split: if_splits)

lemma patchTxs_nth_patched:
  "patchTxs ts missing txs = Some ts' \<Longrightarrow> distinct missing \<Longrightarrow> j < length txs \<Longrightarrow>
     ts' ! (missing ! j) = txs ! j"
proof (induction ts missing txs arbitrary: j rule: patchTxs.induct)
  case (1 ts missing)
  then show ?case by simp
next
  case (2 ts tx txs)
  then show ?case by simp
next
  case (3 ts m missing tx txs)
  from "3.prems" have m: "m < length ts" and
    rest: "patchTxs (ts[m := tx]) missing txs = Some ts'" by (auto split: if_splits)
  show ?case
  proof (cases j)
    case 0
    from "3.prems" have "m \<notin> set missing" by simp
    with rest have "ts' ! m = (ts[m := tx]) ! m" by (rule patchTxs_nth_other)
    with m 0 show ?thesis by simp
  next
    case (Suc k)
    with "3.prems" "3.IH" [OF m rest, of k] show ?thesis by simp
  qed
qed

lemma mismatching_props:
  "distinct (mismatching env ts txids)"
  "i \<in> set (mismatching env ts txids) \<longleftrightarrow> i < length ts \<and> txID env (ts ! i) \<noteq> txids ! i"
  by (auto simp: mismatching_def)

lemma behavioral_append: "behavioral p (xs @ ys) = behavioral p xs + behavioral p ys"
  by (induction xs) auto

lemma behavioral_none:
  "\<forall>b t. IncreaseBanscore p b t \<notin> set cs \<Longrightarrow> behavioral p cs = 0"
  by (induction cs) (auto split: call.splits)

subsection \<open>The decode step returns no error\<close>

lemma decodeFromPeers_result:
  "(\<forall>b' e s'. decodeFromPeers env s b xid missing pids = (Returns (b', e), s') \<longrightarrow> e = None)
   \<and> fst (decodeFromPeers env s b xid missing pids) \<noteq> Blocks
   \<and> (list_all (\<lambda>i. i < length (Transactions b)) missing \<longrightarrow>
        (\<exists>b'. fst (decodeFromPeers env s b xid missing pids) = Returns (b', None)))"
proof (induction pids arbitrary: s)
  case Nil
  then show ?case by simp
next
  case (Cons pid pids)
  show ?case
  proof (cases "GetBlockTxs env s pid xid missing")
    case (Pair r s1)
    show ?thesis
    proof (cases r)
      case (Inl e)
      with Pair Cons show ?thesis by simp
    next
      case (Inr txs)
      with Pair have len: "length txs = length missing" by (simp add: GetBlockTxs_length)
      show ?thesis
      proof (cases "patchTxs (Transactions b) missing txs")
        case None
        with Pair Inr len patchTxs_in_range [of txs missing "Transactions b"]
        show ?thesis by (auto simp: list_all_iff)
      next
        case (Some ts)
        with Pair Inr show ?thesis by simp
      qed
    qed
  qed
qed

text \<open>
  Claim C9. \<^verbatim>\<open>decodeXthinner\<close> never returns a non-nil error and never blocks,
  whatever the mempool decodes and whatever the peers answer. When the indices
  reported missing lie inside the decoded block, it returns a block with a nil error,
  and \<^verbatim>\<open>handleIncomingBlock\<close> goes on to \<^verbatim>\<open>processBlock\<close> with that block: its
  error branch is never taken.
\<close>

theorem decodeXthinner_returns_nil_error:
  "(\<forall>b e s'. decodeXthinner env s x p = (Returns (b, e), s') \<longrightarrow> e = None)
   \<and> fst (decodeXthinner env s x p) \<noteq> Blocks
   \<and> (decoded_in_range env s x \<longrightarrow>
        (\<exists>b s'. decodeXthinner env s x p = (Returns (b, None), s')
               \<and> handleIncomingBlock env s x p = processBlock env s' b p False))"
proof (cases "mempoolDecodeXthinner env (tick s) x")
  case (Pair b missing)
  note D = this
  show ?thesis
  proof (cases "missing = []")
    case True
    with D show ?thesis
      by (simp add: decodeXthinner_def handleIncomingBlock_def)
  next
    case False
    show ?thesis
    proof (cases "GetBlockTxs env (emit (DecodeXthinner x) s) p (XThinnerBlock_ID env x) missing")
      case (Pair r s1)
      note G = this
      show ?thesis
      proof (cases r)
        case (Inl e)
        let ?s2 = "emit (IncreaseBanscore p 34 0) s1"
        let ?d = "decodeFromPeers env ?s2 b (XThinnerBlock_ID env x) missing (peers env (tick ?s2))"
        have eq: "decodeXthinner env s x p = ?d"
          using D False G Inl by (simp add: decodeXthinner_def Let_def)
        from decodeFromPeers_result [of env ?s2 b "XThinnerBlock_ID env x" missing "peers env (tick ?s2)"]
        show ?thesis
          unfolding eq handleIncomingBlock_def eq
          using D by (cases ?d) (auto simp: decoded_in_range_def)
      next
        case (Inr txs)
        with G have len: "length txs = length missing" by (simp add: GetBlockTxs_length)
        show ?thesis
        proof (cases "patchTxs (Transactions b) missing txs")
          case None
          with G Inr len False D patchTxs_in_range [of txs missing "Transactions b"]
          show ?thesis
            by (auto simp: decodeXthinner_def Let_def decoded_in_range_def list_all_iff)
        next
          case (Some ts)
          with G Inr False D show ?thesis
            by (simp add: decodeXthinner_def Let_def handleIncomingBlock_def)
        qed
      qed
    qed
  qed
qed

theorem decodeXthinner_returns_nil_error_witness:
  "decoded_in_range (missingEnv (Inr (ErrorResponse_None, [[2]]))) zeroServer exampleX
   \<and> decodeXthinner (missingEnv (Inr (ErrorResponse_None, [[2]]))) zeroServer exampleX ''A'' =
       (Returns (exampleBlock 5 [[1], [2], [3]], None),
        zeroServer\<lparr>calls := [DecodeXthinner exampleX, SendRequest ''A'' (GetBlockTxsReq 5 [1])]\<rparr>)
   \<and> handleIncomingBlock (missingEnv (Inr (ErrorResponse_None, [[2]]))) zeroServer exampleX ''A'' =
       processBlock (missingEnv (Inr (ErrorResponse_None, [[2]])))
         (zeroServer\<lparr>calls := [DecodeXthinner exampleX, SendRequest ''A'' (GetBlockTxsReq 5 [1])]\<rparr>)
         (exampleBlock 5 [[1], [2], [3]]) ''A'' False"
proof -
  have d: "decodeXthinner (missingEnv (Inr (ErrorResponse_None, [[2]]))) zeroServer exampleX ''A'' =
       (Returns (exampleBlock 5 [[1], [2], [3]], None),
        zeroServer\<lparr>calls := [DecodeXthinner exampleX, SendRequest ''A'' (GetBlockTxsReq 5 [1])]\<rparr>)"
    by (simp add: example_defs missingEnv_def exampleX_def decoded_in_range_def)
  have r: "decoded_in_range (missingEnv (Inr (ErrorResponse_None, [[2]]))) zeroServer exampleX"
    by (simp add: example_defs missingEnv_def exampleX_def decoded_in_range_def)
  from decodeXthinner_returns_nil_error
         [of "missingEnv (Inr (ErrorResponse_None, [[2]]))" zeroServer exampleX "''A''"] r d
  show ?thesis by simp
qed

subsection \<open>What fetchBlockTxids returns\<close>

text \<open>
  Claim C8, as amended. When \<^verbatim>\<open>fetchBlockTxids\<close> returns a block without error, the
  peer listed as many txids as the block has transactions and answered the request
  for the mismatching indices with as many transactions as indices. The returned
  block has the header and the length of the original; at an index whose transaction
  already had the listed txid it is unchanged, so its ID is the listed one; at the
  j-th mismatching index it holds the j-th transaction of the peer's response,
  whatever its ID. Hence every transaction of the returned block has the listed txid
  exactly when every supplied transaction has the txid listed for its index.
\<close>

theorem fetchBlockTxids_patched_block:
  assumes "fetchBlockTxids env s (Some b) p = (Returns (Inr b'), s')"
  shows "\<exists>txids txs.
           replyGetBlockTxids env (tick s) p (Block_ID env b) = Inr (ErrorResponse_None, txids)
         \<and> replyGetBlockTxs env (Suc (tick s)) p (Block_ID env b)
               (mismatching env (Transactions b) txids) = Inr (ErrorResponse_None, txs)
         \<and> length txs = length (mismatching env (Transactions b) txids)
         \<and> Header b' = Header b
         \<and> length (Transactions b') = length txids
         \<and> length (Transactions b) = length txids
         \<and> (\<forall>i < length txids. i \<notin> set (mismatching env (Transactions b) txids) \<longrightarrow>
                Transactions b' ! i = Transactions b ! i
              \<and> txID env (Transactions b' ! i) = txids ! i)
         \<and> (\<forall>j < length txs.
                Transactions b' ! (mismatching env (Transactions b) txids ! j) = txs ! j)
         \<and> ((\<forall>j < length txs. txID env (txs ! j) = txids ! (mismatching env (Transactions b) txids ! j))
              \<longleftrightarrow> (\<forall>i < length txids. txID env (Transactions b' ! i) = txids ! i))"
proof -
  let ?id = "Block_ID env b"
  obtain r1 s1 where G1: "GetBlockTxids env s p ?id = (r1, s1)" by (cases "GetBlockTxids env s p ?id")
  from assms G1 obtain txids where r1: "r1 = Inr txids"
    by (cases r1) (auto simp: fetchBlockTxids_def)
  let ?missing = "mismatching env (Transactions b) txids"
  from assms G1 r1 have len: "length txids = length (Transactions b)" and ne: "?missing \<noteq> []"
    by (auto simp: fetchBlockTxids_def Let_def split: if_splits)
  obtain r2 s2 where G2: "GetBlockTxs env s1 p ?id ?missing = (r2, s2)"
    by (cases "GetBlockTxs env s1 p ?id ?missing")
  from assms G1 r1 len ne G2 obtain txs where r2: "r2 = Inr txs"
    by (cases r2) (auto simp: fetchBlockTxids_def Let_def)
  from assms G1 r1 len ne G2 r2 have
    patch: "patchTxs (Transactions b) ?missing txs = Some (Transactions b')" and
    hdr: "Header b' = Header b"
    by (auto simp: fetchBlockTxids_def Let_def split: option.splits)
  from G1 r1 have rep1: "replyGetBlockTxids env (tick s) p ?id = Inr (ErrorResponse_None, txids)"
    and t1: "tick s1 = Suc (tick s)" by (auto dest: GetBlockTxids_reply)
  from G2 r2 t1 have rep2: "replyGetBlockTxs env (Suc (tick s)) p ?id ?missing = Inr (ErrorResponse_None, txs)"
    and ltxs: "length txs = length ?missing"
    by (auto dest: GetBlockTxs_reply GetBlockTxs_length)
  have other: "\<forall>i < length txids. i \<notin> set ?missing \<longrightarrow>
                Transactions b' ! i = Transactions b ! i \<and> txID env (Transactions b' ! i) = txids ! i"
    using patchTxs_nth_other [OF patch] len by (auto simp: mismatching_props)
  have patched: "\<forall>j < length txs. Transactions b' ! (?missing ! j) = txs ! j"
    using patchTxs_nth_patched [OF patch mismatching_props(1)] by simp
  have iff: "(\<forall>j < length txs. txID env (txs ! j) = txids ! (?missing ! j))
              \<longleftrightarrow> (\<forall>i < length txids. txID env (Transactions b' ! i) = txids ! i)"
  proof
    assume A: "\<forall>j < length txs. txID env (txs ! j) = txids ! (?missing ! j)"
    show "\<forall>i < length txids. txID env (Transactions b' ! i) = txids ! i"
    proof (intro allI impI)
      fix i assume i: "i < length txids"
      show "txID env (Transactions b' ! i) = txids ! i"
      proof (cases "i \<in> set ?missing")
        case True
        then obtain j where j: "j < length ?missing" "?missing ! j = i"
          by (auto simp: in_set_conv_nth)
        with A patched ltxs show ?thesis by auto
      next
        case False
        with other i show ?thesis by blast
      qed
    qed
  next
    assume B: "\<forall>i < length txids. txID env (Transactions b' ! i) = txids ! i"
    show "\<forall>j < length txs. txID env (txs ! j) = txids ! (?missing ! j)"
    proof (intro allI impI)
      fix j assume j: "j < length txs"
      with ltxs have "?missing ! j \<in> set ?missing" by simp
      then have "?missing ! j < length txids" using len by (simp add: mismatching_props)
      with B patched j show "txID env (txs ! j) = txids ! (?missing ! j)" by metis
    qed
  qed
  from rep1 rep2 ltxs hdr len patchTxs_length [OF patch] other patched iff
  show ?thesis by auto
qed

text \<open>
  The claim as it was stated fails: the peer lists txid 2 for index 0 and then supplies
  a transaction whose ID is 9; \<^verbatim>\<open>fetchBlockTxids\<close> returns the block with that
  transaction and no error.
\<close>

theorem fetchBlockTxids_unverified_counterexample:
  "fetchBlockTxids liarEnv zeroServer (Some (exampleBlock 5 [[1]])) ''A''
     = (Returns (Inr (exampleBlock 5 [[9]])),
        zeroServer\<lparr>calls := [SendRequest ''A'' (GetBlockTxidsReq 5),
                              SendRequest ''A'' (GetBlockTxsReq 5 [0])]\<rparr>)
   \<and> replyGetBlockTxids liarEnv (tick zeroServer) ''A'' (Block_ID liarEnv (exampleBlock 5 [[1]]))
       = Inr (ErrorResponse_None, [2])
   \<and> txID liarEnv (Transactions (exampleBlock 5 [[9]]) ! 0) = 9"
  by (simp add: example_defs liarEnv_def)

theorem fetchBlockTxids_patched_block_witness:
  "fetchBlockTxids liarEnv zeroServer (Some (exampleBlock 5 [[1]])) ''A''
     = (Returns (Inr (exampleBlock 5 [[9]])),
        zeroServer\<lparr>calls := [SendRequest ''A'' (GetBlockTxidsReq 5),
                              SendRequest ''A'' (GetBlockTxsReq 5 [0])]\<rparr>)
   \<and> Header (exampleBlock 5 [[9]]) = Header (exampleBlock 5 [[1]])
   \<and> Transactions (exampleBlock 5 [[9]]) ! 0 = [[9]] ! 0"
proof -
  have h: "fetchBlockTxids liarEnv zeroServer (Some (exampleBlock 5 [[1]])) ''A''
     = (Returns (Inr (exampleBlock 5 [[9]])),
        zeroServer\<lparr>calls := [SendRequest ''A'' (GetBlockTxidsReq 5),
                              SendRequest ''A'' (GetBlockTxsReq 5 [0])]\<rparr>)"
    by (simp add: example_defs liarEnv_def)
  from fetchBlockTxids_patched_block [OF h] h show ?thesis
    by (simp add: exampleBlock_def)
qed

subsection \<open>Penalties during the decode step\<close>

lemma decodeFromPeers_helperCalls:
  "calls (snd (decodeFromPeers env s b xid missing qs))
     = calls s @ helperCalls env (tick s) xid missing qs"
proof (induction qs arbitrary: s)
  case Nil
  show ?case by simp
next
  case (Cons q qs)
  let ?r = "replyGetBlockTxs env (tick s) q xid missing"
  obtain g s1 where G: "GetBlockTxs env s q xid missing = (g, s1)"
    by (cases "GetBlockTxs env s q xid missing")
  from GetBlockTxs_calls [of env s q xid missing] G
  have c1: "calls s1 = calls s @ SendRequest q (GetBlockTxsReq xid missing) #
              (if incompleteReply ?r missing then [IncreaseBanscore q 50 0] else [])" by simp
  then have t1: "tick s1 = tick s + (if incompleteReply ?r missing then 2 else 1)"
    by (simp add: tick_def)
  from GetBlockTxs_fails [of env s q xid missing] G
  have f: "(\<exists>e. g = Inl e) \<longleftrightarrow> errorReply ?r \<or> incompleteReply ?r missing" by simp
  show ?case
  proof (cases "errorReply ?r \<or> incompleteReply ?r missing")
    case True
    with f obtain e where g: "g = Inl e" by blast
    have ex: "incompleteReply ?r missing \<Longrightarrow> \<not> errorReply ?r"
      by (auto simp: incompleteReply_def errorReply_def split: sum.splits)
    from G g have "decodeFromPeers env s b xid missing (q # qs)
                    = decodeFromPeers env s1 b xid missing qs" by simp
    with Cons.IH [of s1] c1 t1 True ex show ?thesis by auto
  next
    case False
    with f obtain txs where g: "g = Inr txs" by (cases g) auto
    from G g have "calls (snd (decodeFromPeers env s b xid missing (q # qs))) = calls s1"
      by (simp split: option.splits)
    with c1 False show ?thesis by simp
  qed
qed

lemma helperCalls_bans:
  "IncreaseBanscore q bb tt \<in> set (helperCalls env t xid missing qs) \<Longrightarrow>
     q \<in> set qs \<and> bb = 50 \<and> tt = 0"
  by (induction qs arbitrary: t) (auto split: if_splits)

text \<open>
  Claim C3, as amended. Let the mempool report missing indices and let the announcing
  peer's answer \<open>r\<close> to \<^verbatim>\<open>GetBlockTxs\<close> fail, as an error or as a list of the wrong
  length. Then the calls of \<^verbatim>\<open>decodeXthinner\<close> are exactly: the decoder, the
  request, for a list of the wrong length the \<^verbatim>\<open>IncreaseBanscore(peer, 50, 0)\<close> of
  \<^verbatim>\<open>GetBlockTxs\<close>, then one \<^verbatim>\<open>IncreaseBanscore(peer, 34, 0)\<close>, then the calls
  \<open>helperCalls\<close> of the loop over the connected peers, the announcing peer among
  them when it is connected. In that loop \<^verbatim>\<open>decodeXthinner\<close> makes no ban score
  call of its own; the only penalty is the +50 of \<^verbatim>\<open>GetBlockTxs\<close> for a response of
  the wrong length. The announcing peer's behavioural score has grown by 34 after an
  error and by 84 after a list of the wrong length, plus what the loop adds to it;
  that is nothing when it is not among the connected peers.
\<close>

theorem decodeXthinner_originator_penalty:
  assumes dec: "mempoolDecodeXthinner env (tick s) x = (b, missing)"
    and ne: "missing \<noteq> []"
    and r: "r = replyGetBlockTxs env (Suc (tick s)) p (XThinnerBlock_ID env x) missing"
    and fails: "errorReply r \<or> incompleteReply r missing"
    and t: "t = tick s + (if incompleteReply r missing then 4 else 3)"
  shows "newCalls s (snd (decodeXthinner env s x p)) =
           [DecodeXthinner x, SendRequest p (GetBlockTxsReq (XThinnerBlock_ID env x) missing)]
           @ (if incompleteReply r missing then [IncreaseBanscore p 50 0] else [])
           @ [IncreaseBanscore p 34 0]
           @ helperCalls env t (XThinnerBlock_ID env x) missing (peers env t)
       \<and> behavioral p (newCalls s (snd (decodeXthinner env s x p))) =
           (if incompleteReply r missing then 84 else 34)
           + behavioral p (helperCalls env t (XThinnerBlock_ID env x) missing (peers env t))
       \<and> (p \<notin> set (peers env t) \<longrightarrow>
            behavioral p (newCalls s (snd (decodeXthinner env s x p))) =
              (if incompleteReply r missing then 84 else 34))"
proof -
  let ?xid = "XThinnerBlock_ID env x"
  let ?s0 = "emit (DecodeXthinner x) s"
  have t0: "tick ?s0 = Suc (tick s)" by (simp add: emit_def tick_def)
  obtain g s1 where G: "GetBlockTxs env ?s0 p ?xid missing = (g, s1)"
    by (cases "GetBlockTxs env ?s0 p ?xid missing")
  from GetBlockTxs_fails [of env ?s0 p ?xid missing] G fails r t0
  obtain e where g: "g = Inl e" by auto
  have c1: "calls s1 = calls s @ [DecodeXthinner x, SendRequest p (GetBlockTxsReq ?xid missing)]
              @ (if incompleteReply r missing then [IncreaseBanscore p 50 0] else [])"
    using GetBlockTxs_calls [of env ?s0 p ?xid missing] G r t0 by (simp add: emit_def)
  let ?s2 = "emit (IncreaseBanscore p 34 0) s1"
  have t2: "tick ?s2 = t"
    using c1 t by (simp add: emit_def tick_def)
  have eq: "decodeXthinner env s x p = decodeFromPeers env ?s2 b ?xid missing (peers env t)"
    using dec ne G g t2 by (simp add: decodeXthinner_def Let_def)
  have new: "newCalls s (snd (decodeXthinner env s x p)) =
             [DecodeXthinner x, SendRequest p (GetBlockTxsReq ?xid missing)]
             @ (if incompleteReply r missing then [IncreaseBanscore p 50 0] else [])
             @ [IncreaseBanscore p 34 0] @ helperCalls env t ?xid missing (peers env t)"
    using decodeFromPeers_helperCalls [of env ?s2 b ?xid missing "peers env t"] c1 t2
    by (simp add: eq newCalls_def emit_def)
  have total: "behavioral p (newCalls s (snd (decodeXthinner env s x p))) =
           (if incompleteReply r missing then 84 else 34)
           + behavioral p (helperCalls env t ?xid missing (peers env t))"
    unfolding new by (simp add: behavioral_append)
  have "p \<notin> set (peers env t) \<longrightarrow>
          behavioral p (helperCalls env t ?xid missing (peers env t)) = 0"
    by (auto intro!: behavioral_none dest: helperCalls_bans)
  with new total show ?thesis by simp
qed

text \<open>
  The claim as it was stated fails: after an error response the announcing peer's
  score has grown by 34, after a list of the wrong length by 84, in neither case by
  50; and a connected peer that answers with a list of the wrong length receives 50.
\<close>

theorem decodeXthinner_penalty_counterexample:
  "errorReply (replyGetBlockTxs (missingEnv (Inr (ErrorResponse_NotFound, []))) 1 ''A'' 5 [1])
   \<and> newCalls zeroServer
        (snd (decodeXthinner (missingEnv (Inr (ErrorResponse_NotFound, []))) zeroServer exampleX ''A''))
      = [DecodeXthinner exampleX, SendRequest ''A'' (GetBlockTxsReq 5 [1]), IncreaseBanscore ''A'' 34 0]
   \<and> behavioral ''A'' (newCalls zeroServer
        (snd (decodeXthinner (missingEnv (Inr (ErrorResponse_NotFound, []))) zeroServer exampleX ''A'')))
      = 34
   \<and> incompleteReply (replyGetBlockTxs (missingEnv (Inr (ErrorResponse_None, []))) 1 ''A'' 5 [1]) [1]
   \<and> behavioral ''A'' (newCalls zeroServer
        (snd (decodeXthinner (missingEnv (Inr (ErrorResponse_None, []))) zeroServer exampleX ''A'')))
      = 84
   \<and> behavioral ''B'' (newCalls zeroServer
        (snd (decodeXthinner (helperEnv (Inr (ErrorResponse_None, []))) zeroServer exampleX ''A'')))
      = 50"
  by (simp add: example_defs missingEnv_def helperEnv_def exampleX_def)

text \<open>
  On concrete inputs, where every peer answers with a list of the wrong length. When
  the announcing peer \<open>A\<close> is connected it is asked again in the loop: it receives 50
  and 34 for the first request and 50 in the loop, 134 in all, and \<open>B\<close> receives 50.
  When only \<open>B\<close> is connected, \<open>A\<close> receives 84.
\<close>

theorem decodeXthinner_originator_penalty_witness:
  "mempoolDecodeXthinner (selfEnv (Inr (ErrorResponse_None, []))) (tick zeroServer) exampleX
     = (exampleBlock 5 [[1], [], [3]], [1])
   \<and> incompleteReply (replyGetBlockTxs (selfEnv (Inr (ErrorResponse_None, []))) (Suc (tick zeroServer))
        ''A'' (XThinnerBlock_ID (selfEnv (Inr (ErrorResponse_None, []))) exampleX) [1]) [1]
   \<and> peers (selfEnv (Inr (ErrorResponse_None, []))) 4 = [''A'', ''B'']
   \<and> newCalls zeroServer
        (snd (decodeXthinner (selfEnv (Inr (ErrorResponse_None, []))) zeroServer exampleX ''A''))
      = [DecodeXthinner exampleX,
         SendRequest ''A'' (GetBlockTxsReq 5 [1]), IncreaseBanscore ''A'' 50 0,
         IncreaseBanscore ''A'' 34 0,
         SendRequest ''A'' (GetBlockTxsReq 5 [1]), IncreaseBanscore ''A'' 50 0,
         SendRequest ''B'' (GetBlockTxsReq 5 [1]), IncreaseBanscore ''B'' 50 0]
   \<and> behavioral ''A'' (newCalls zeroServer
        (snd (decodeXthinner (selfEnv (Inr (ErrorResponse_None, []))) zeroServer exampleX ''A'')))
      = 134
   \<and> mempoolDecodeXthinner (helperEnv (Inr (ErrorResponse_None, []))) (tick zeroServer) exampleX
     = (exampleBlock 5 [[1], [], [3]], [1])
   \<and> incompleteReply (replyGetBlockTxs (helperEnv (Inr (ErrorResponse_None, []))) (Suc (tick zeroServer))
        ''A'' (XThinnerBlock_ID (helperEnv (Inr (ErrorResponse_None, []))) exampleX) [1]) [1]
   \<and> ''A'' \<notin> set (peers (helperEnv (Inr (ErrorResponse_None, []))) 4)
   \<and> newCalls zeroServer
        (snd (decodeXthinner (helperEnv (Inr (ErrorResponse_None, []))) zeroServer exampleX ''A''))
      = [DecodeXthinner exampleX,
         SendRequest ''A'' (GetBlockTxsReq 5 [1]), IncreaseBanscore ''A'' 50 0,
         IncreaseBanscore ''A'' 34 0,
         SendRequest ''B'' (GetBlockTxsReq 5 [1]), IncreaseBanscore ''B'' 50 0]
   \<and> behavioral ''A'' (newCalls zeroServer
        (snd (decodeXthinner (helperEnv (Inr (ErrorResponse_None, []))) zeroServer exampleX ''A'')))
      = 84"
proof -
  let ?E = "selfEnv (Inr (ErrorResponse_None, []))"
  let ?r = "replyGetBlockTxs ?E (Suc (tick zeroServer)) ''A'' (XThinnerBlock_ID ?E exampleX) [1]"
  have d: "mempoolDecodeXthinner ?E (tick zeroServer) exampleX = (exampleBlock 5 [[1], [], [3]], [1])"
    by (simp add: example_defs selfEnv_def missingEnv_def exampleX_def)
  have i: "incompleteReply ?r [1]" by (simp add: example_defs selfEnv_def missingEnv_def exampleX_def)
  have t: "4 = tick zeroServer + (if incompleteReply ?r [1] then 4 else 3)"
    using i by (simp add: example_defs)
  have ps: "peers ?E 4 = [''A'', ''B'']" by (simp add: selfEnv_def)
  have h: "helperCalls ?E 4 (XThinnerBlock_ID ?E exampleX) [1] [''A'', ''B'']
           = [SendRequest ''A'' (GetBlockTxsReq 5 [1]), IncreaseBanscore ''A'' 50 0,
              SendRequest ''B'' (GetBlockTxsReq 5 [1]), IncreaseBanscore ''B'' 50 0]"
    by (simp add: example_defs selfEnv_def missingEnv_def exampleX_def)
  have x: "XThinnerBlock_ID ?E exampleX = 5"
    by (simp add: example_defs selfEnv_def missingEnv_def exampleX_def)
  let ?F = "helperEnv (Inr (ErrorResponse_None, []))"
  let ?q = "replyGetBlockTxs ?F (Suc (tick zeroServer)) ''A'' (XThinnerBlock_ID ?F exampleX) [1]"
  have d': "mempoolDecodeXthinner ?F (tick zeroServer) exampleX = (exampleBlock 5 [[1], [], [3]], [1])"
    by (simp add: example_defs helperEnv_def missingEnv_def exampleX_def)
  have i': "incompleteReply ?q [1]" by (simp add: example_defs helperEnv_def missingEnv_def exampleX_def)
  have t': "4 = tick zeroServer + (if incompleteReply ?q [1] then 4 else 3)"
    using i' by (simp add: example_defs)
  have ps': "peers ?F 4 = [''B'']" by (simp add: helperEnv_def)
  have h': "helperCalls ?F 4 (XThinnerBlock_ID ?F exampleX) [1] [''B'']
           = [SendRequest ''B'' (GetBlockTxsReq 5 [1]), IncreaseBanscore ''B'' 50 0]"
    by (simp add: example_defs helperEnv_def missingEnv_def exampleX_def)
  have x': "XThinnerBlock_ID ?F exampleX = 5"
    by (simp add: example_defs helperEnv_def missingEnv_def exampleX_def)
  from decodeXthinner_originator_penalty [OF d _ refl _ t] i ps h x d
  have A: "newCalls zeroServer (snd (decodeXthinner ?E zeroServer exampleX ''A''))
      = [DecodeXthinner exampleX,
         SendRequest ''A'' (GetBlockTxsReq 5 [1]), IncreaseBanscore ''A'' 50 0,
         IncreaseBanscore ''A'' 34 0,
         SendRequest ''A'' (GetBlockTxsReq 5 [1]), IncreaseBanscore ''A'' 50 0,
         SendRequest ''B'' (GetBlockTxsReq 5 [1]), IncreaseBanscore ''B'' 50 0]
     \<and> behavioral ''A'' (newCalls zeroServer (snd (decodeXthinner ?E zeroServer exampleX ''A''))) = 134"
    by simp
  from decodeXthinner_originator_penalty [OF d' _ refl _ t'] i' ps' h' x' d'
  have B: "newCalls zeroServer (snd (decodeXthinner ?F zeroServer exampleX ''A''))
      = [DecodeXthinner exampleX,
         SendRequest ''A'' (GetBlockTxsReq 5 [1]), IncreaseBanscore ''A'' 50 0,
         IncreaseBanscore ''A'' 34 0,
         SendRequest ''B'' (GetBlockTxsReq 5 [1]), IncreaseBanscore ''B'' 50 0]
     \<and> behavioral ''A'' (newCalls zeroServer (snd (decodeXthinner ?F zeroServer exampleX ''A''))) = 84"
    by simp
  from A B d i ps d' i' ps' show ?thesis by simp
qed

subsection \<open>What one call of processBlock adds to the log\<close>

lemma Lock_free: "free m \<Longrightarrow> Lock m = Some (m\<lparr>writer := True\<rparr>) \<and> Unlock (m\<lparr>writer := True\<rparr>) = m"
  by (simp add: free_def Lock_def Unlock_def)

lemma GetBlockTxs_rpc:
  "\<exists>evs. calls (snd (GetBlockTxs env s p i ixs)) = calls s @ evs \<and> list_all isRpc evs"
  by (simp add: GetBlockTxs_calls isRpc_def)

lemma GetBlockTxids_rpc:
  "\<exists>evs. calls (snd (GetBlockTxids env s p i)) = calls s @ evs \<and> list_all isRpc evs"
  by (auto simp: GetBlockTxids_def Let_def emit_def isRpc_def split: sum.splits prod.splits)

lemma fetchBlockTxids_rpc:
  "\<exists>evs. calls (snd (fetchBlockTxids env s blkp p)) = calls s @ evs \<and> list_all isRpc evs"
proof (cases blkp)
  case None
  show ?thesis
  proof (cases "nilBlockID env")
    case None
    with \<open>blkp = None\<close> show ?thesis by (simp add: fetchBlockTxids_def)
  next
    case (Some i)
    with \<open>blkp = None\<close> GetBlockTxids_rpc [of env s p i] show ?thesis
      by (auto simp: fetchBlockTxids_def split: prod.splits sum.splits)
  qed
next
  case (Some b)
  obtain r1 s1 where G1: "GetBlockTxids env s p (Block_ID env b) = (r1, s1)"
    by (cases "GetBlockTxids env s p (Block_ID env b)")
  from GetBlockTxids_rpc [of env s p "Block_ID env b"] G1
  obtain e1 where e1: "calls s1 = calls s @ e1" "list_all isRpc e1" by auto
  show ?thesis
  proof (cases r1)
    case (Inl e)
    with Some G1 e1 show ?thesis by (simp add: fetchBlockTxids_def)
  next
    case (Inr txids)
    let ?m = "mismatching env (Transactions b) txids"
    obtain r2 s2 where G2: "GetBlockTxs env s1 p (Block_ID env b) ?m = (r2, s2)"
      by (cases "GetBlockTxs env s1 p (Block_ID env b) ?m")
    from GetBlockTxs_rpc [of env s1 p "Block_ID env b" ?m] G2
    obtain e2 where e2: "calls s2 = calls s1 @ e2" "list_all isRpc e2" by auto
    have "snd (fetchBlockTxids env s blkp p) = s1 \<or> snd (fetchBlockTxids env s blkp p) = s2"
      using Some G1 Inr G2 by (auto simp: fetchBlockTxids_def Let_def split: sum.splits option.splits)
    then show ?thesis
    proof
      assume "snd (fetchBlockTxids env s blkp p) = s1"
      with e1 show ?thesis by simp
    next
      assume "snd (fetchBlockTxids env s blkp p) = s2"
      with e1 e2 have "calls (snd (fetchBlockTxids env s blkp p)) = calls s @ (e1 @ e2)"
        "list_all isRpc (e1 @ e2)" by simp_all
      then show ?thesis by blast
    qed
  qed
qed

lemma fetchBlockTxids_nil:
  "fst (fetchBlockTxids env s None p) \<noteq> Returns (Inr b')"
  by (auto simp: fetchBlockTxids_def split: option.splits prod.splits sum.splits)

lemma fetchBlockTxids_header:
  "fetchBlockTxids env s (Some b) p = (Returns (Inr b'), s') \<Longrightarrow> Header b' = Header b"
  by (auto simp: fetchBlockTxids_def Let_def split: option.splits prod.splits sum.splits if_splits)

lemma fetchFromPeers_rpc:
  "\<exists>evs. calls (snd (fetchFromPeers env s blkp pids)) = calls s @ evs \<and> list_all isRpc evs"
proof (induction pids arbitrary: s blkp)
  case Nil
  then show ?case by simp
next
  case (Cons pid pids)
  obtain r s1 where F: "fetchBlockTxids env s blkp pid = (r, s1)"
    by (cases "fetchBlockTxids env s blkp pid")
  from fetchBlockTxids_rpc [of env s blkp pid] F
  obtain e1 where e1: "calls s1 = calls s @ e1" "list_all isRpc e1" by auto
  show ?case
  proof (cases "\<exists>e. r = Returns (Inl e)")
    case True
    then obtain e where r: "r = Returns (Inl e)" by blast
    from Cons.IH [of s1 None] obtain e2 where
      e2: "calls (snd (fetchFromPeers env s1 None pids)) = calls s1 @ e2" "list_all isRpc e2" by blast
    from F r e1 e2 have "calls (snd (fetchFromPeers env s blkp (pid # pids))) = calls s @ (e1 @ e2)"
      "list_all isRpc (e1 @ e2)" by simp_all
    then show ?thesis by blast
  next
    case False
    with F have "snd (fetchFromPeers env s blkp (pid # pids)) = s1"
      by (auto split: outcome.splits sum.splits)
    with e1 show ?thesis by auto
  qed
qed

lemma fetchFromPeers_nil:
  "fst (fetchFromPeers env s None pids) \<noteq> Returns (Some b')"
proof (induction pids arbitrary: s)
  case Nil
  then show ?case by simp
next
  case (Cons pid pids)
  obtain r s1 where F: "fetchBlockTxids env s None pid = (r, s1)"
    by (cases "fetchBlockTxids env s None pid")
  with fetchBlockTxids_nil [of env s pid b'] have "r \<noteq> Returns (Inr b')" by simp
  show ?case using F Cons.IH [of s1] fetchBlockTxids_nil [of env s pid]
    by (auto split: outcome.splits sum.splits)
qed

lemma rpc_no_NewBlock: "list_all isRpc evs \<Longrightarrow> filter isNewBlock evs = []"
  by (induction evs) (auto simp: isRpc_def isNewBlock_def split: call.splits)

lemma rpc_no_Check: "list_all isRpc evs \<Longrightarrow> CheckConnectBlock b \<notin> set evs"
  by (induction evs) (auto simp: isRpc_def)

lemma acceptBlock_calls:
  "\<exists>evs. calls (snd (acceptBlock env s b)) = calls s @ evs
        \<and> (evs = [] \<or> evs = [NewBlock (Block_ID env b) True, GoWaiter b])"
  by (auto simp: acceptBlock_def Let_def emit_def split: option.splits)

lemma processBlock_recheck_calls:
  "\<exists>evs. calls (snd (processBlock env s b p True)) = calls s @ CheckConnectBlock b # evs
        \<and> (\<forall>b'. CheckConnectBlock b' \<notin> set evs)
        \<and> length (filter isNewBlock evs) \<le> 1"
proof (cases "checkConnectBlock env (tick s) b")
  case None
  from acceptBlock_calls [of env "emit (CheckConnectBlock b) s" b] None
  show ?thesis
    by (auto simp: processBlock.simps [of env s b p True] Let_def emit_def isNewBlock_def)
next
  case (Some e)
  then show ?thesis
    by (cases e)
       (auto simp: processBlock.simps [of env s b p True] Let_def emit_def isNewBlock_def
             split: option.splits)
qed

lemma shape_recheck:
  assumes "calls s' = calls s1 @ CheckConnectBlock b' # evs"
    and "\<forall>c. CheckConnectBlock c \<notin> set evs" and "length (filter isNewBlock evs) \<le> 1"
    and "calls s1 = calls s @ CheckConnectBlock b # pre" and "list_all isRpc pre"
    and "Header b' = Header b"
  shows "\<exists>evs. calls s' = calls s @ CheckConnectBlock b # evs
             \<and> shape b (CheckConnectBlock b # evs)"
proof -
  have "calls s' = calls s @ CheckConnectBlock b # (pre @ CheckConnectBlock b' # evs)"
    using assms by simp
  moreover have "shape b (CheckConnectBlock b # (pre @ CheckConnectBlock b' # evs))"
    using assms rpc_no_NewBlock [of pre] rpc_no_Check [of pre]
    by (auto simp: shape_def isNewBlock_def)
  ultimately show ?thesis by blast
qed

lemma shape_rpc:
  assumes "calls s' = calls s @ CheckConnectBlock b # pre" and "list_all isRpc pre"
  shows "\<exists>evs. calls s' = calls s @ CheckConnectBlock b # evs
             \<and> shape b (CheckConnectBlock b # evs)"
proof -
  have "shape b (CheckConnectBlock b # pre)"
    using assms rpc_no_NewBlock [of pre] rpc_no_Check [of pre]
    by (auto simp: shape_def isNewBlock_def)
  with assms show ?thesis by blast
qed

lemma processBlock_calls:
  "\<exists>evs. calls (snd (processBlock env s b p recheck)) = calls s @ CheckConnectBlock b # evs
        \<and> shape b (CheckConnectBlock b # evs)"
proof (cases recheck)
  case True
  with processBlock_recheck_calls [of env s b p] show ?thesis
    by (auto simp: shape_def isNewBlock_def)
next
  case False
  then have [simp]: "recheck = False" by simp
  let ?s = "emit (CheckConnectBlock b) s"
  have cs: "calls ?s = calls s @ [CheckConnectBlock b]" by (simp add: emit_def)
  show ?thesis
  proof (cases "checkConnectBlock env (tick s) b = Some (RuleError ErrInvalidTxRoot)")
    case other: False
    show ?thesis
    proof (cases "checkConnectBlock env (tick s) b")
      case None
      from acceptBlock_calls [of env ?s b] None
      show ?thesis
        by (auto simp: processBlock.simps [of env s b p False] Let_def emit_def shape_def isNewBlock_def)
    next
      case (Some e)
      with other False show ?thesis
        by (cases e)
           (auto simp: processBlock.simps [of env s b p False] Let_def emit_def shape_def isNewBlock_def
                 split: option.splits)
    qed
  next
    case root: True
    obtain r s1 where F: "fetchBlockTxids env ?s (Some b) p = (r, s1)"
      by (cases "fetchBlockTxids env ?s (Some b) p")
    from fetchBlockTxids_rpc [of env ?s "Some b" p] F cs
    obtain e1 where e1: "calls s1 = calls s @ CheckConnectBlock b # e1" "list_all isRpc e1" by auto
    show ?thesis
    proof (cases r)
      case Panics
      with root False F have "snd (processBlock env s b p False) = s1"
        by (simp add: processBlock.simps [of env s b p False] Let_def)
      with shape_rpc [OF e1] show ?thesis by simp
    next
      case Blocks
      with root False F have "snd (processBlock env s b p False) = s1"
        by (simp add: processBlock.simps [of env s b p False] Let_def)
      with shape_rpc [OF e1] show ?thesis by simp
    next
      case (Returns v)
      show ?thesis
      proof (cases v)
        case (Inr b')
        with Returns F have hdr: "Header b' = Header b" by (auto dest: fetchBlockTxids_header)
        from root False F Returns Inr
        have eq: "processBlock env s b p False = processBlock env s1 b' p True"
          by (simp add: processBlock.simps [of env s b p False] Let_def)
        from processBlock_recheck_calls [of env s1 b' p] obtain evs where
          "calls (snd (processBlock env s1 b' p True)) = calls s1 @ CheckConnectBlock b' # evs"
          "\<forall>c. CheckConnectBlock c \<notin> set evs" "length (filter isNewBlock evs) \<le> 1" by blast
        from shape_recheck [OF this e1 hdr] show ?thesis by (simp add: eq)
      next
        case (Inl e')
        let ?s2 = "emit (IncreaseBanscore p 34 0) s1"
        obtain r3 s3 where P: "fetchFromPeers env ?s2 None (peers env (tick ?s2)) = (r3, s3)"
          by (cases "fetchFromPeers env ?s2 None (peers env (tick ?s2))")
        from fetchFromPeers_rpc [of env ?s2 None "peers env (tick ?s2)"] P
        obtain e3 where e3: "calls s3 = calls ?s2 @ e3" "list_all isRpc e3" by auto
        from fetchFromPeers_nil [of env ?s2 "peers env (tick ?s2)"] P
        have nf: "\<forall>b'. r3 \<noteq> Returns (Some b')" by simp
        from root False F Returns Inl P nf
        have "snd (processBlock env s b p False) = s3"
          by (cases r3) (auto simp: processBlock.simps [of env s b p False] Let_def split: option.splits)
        moreover have c3: "calls s3 = calls s @ CheckConnectBlock b # (e1 @ IncreaseBanscore p 34 0 # e3)"
          using e1 e3 by (simp add: emit_def)
        moreover have r3: "list_all isRpc (e1 @ IncreaseBanscore p 34 0 # e3)"
          using e1 e3 by (simp add: isRpc_def)
        ultimately show ?thesis using shape_rpc [OF c3 r3] by simp
      qed
    qed
  qed
qed

subsection \<open>What the fetch functions leave unchanged\<close>

lemma frame_refl: "frame s s"
  by (simp add: frame_def)

lemma frame_trans: "frame s s1 \<Longrightarrow> frame s1 s2 \<Longrightarrow> frame s s2"
  by (simp add: frame_def) (metis Server.surjective Server.update_convs(8))

lemma frame_emit: "frame s (emit c s)"
  by (simp add: frame_def emit_def)

lemma frame_fields:
  "frame s s' \<Longrightarrow> activeInventory s' = activeInventory s \<and> orphanBlocks s' = orphanBlocks s
     \<and> inventoryLock s' = inventoryLock s \<and> orphanLock s' = orphanLock s
     \<and> inflightRequests s' = inflightRequests s \<and> inflightLock s' = inflightLock s"
  by (simp add: frame_def) (metis Server.select_convs(1-6) Server.surjective Server.update_convs(8))

lemma GetBlockTxs_frame: "frame s (snd (GetBlockTxs env s p i ixs))"
  by (auto simp: GetBlockTxs_def Let_def emit_def frame_def split: sum.splits prod.splits)

lemma GetBlockTxids_frame: "frame s (snd (GetBlockTxids env s p i))"
  by (auto simp: GetBlockTxids_def Let_def emit_def frame_def split: sum.splits prod.splits)

lemma fetchBlockTxids_frame: "frame s (snd (fetchBlockTxids env s blkp p))"
proof (cases blkp)
  case None
  show ?thesis
  proof (cases "nilBlockID env")
    case None
    with \<open>blkp = None\<close> show ?thesis by (simp add: fetchBlockTxids_def frame_refl)
  next
    case (Some i)
    with \<open>blkp = None\<close> GetBlockTxids_frame [of s env p i] show ?thesis
      by (auto simp: fetchBlockTxids_def split: prod.splits sum.splits)
  qed
next
  case (Some b)
  obtain r1 s1 where G1: "GetBlockTxids env s p (Block_ID env b) = (r1, s1)"
    by (cases "GetBlockTxids env s p (Block_ID env b)")
  from GetBlockTxids_frame [of s env p "Block_ID env b"] G1
  have c1: "frame s s1" by simp
  show ?thesis
  proof (cases r1)
    case (Inl e)
    with Some G1 c1 show ?thesis by (simp add: fetchBlockTxids_def)
  next
    case (Inr txids)
    let ?m = "mismatching env (Transactions b) txids"
    obtain r2 s2 where G2: "GetBlockTxs env s1 p (Block_ID env b) ?m = (r2, s2)"
      by (cases "GetBlockTxs env s1 p (Block_ID env b) ?m")
    from GetBlockTxs_frame [of s1 env p "Block_ID env b" ?m] G2 c1
    have c2: "frame s s2" by (auto intro: frame_trans)
    have "snd (fetchBlockTxids env s blkp p) = s1 \<or> snd (fetchBlockTxids env s blkp p) = s2"
      using Some G1 Inr G2 by (auto simp: fetchBlockTxids_def Let_def split: sum.splits option.splits)
    with c1 c2 show ?thesis by auto
  qed
qed

lemma fetchBlockTxids_not_Blocks: "fst (fetchBlockTxids env s blkp p) \<noteq> Blocks"
  by (auto simp: fetchBlockTxids_def Let_def split: option.splits prod.splits sum.splits)

lemma fetchFromPeers_frame: "frame s (snd (fetchFromPeers env s blkp pids))"
proof (induction pids arbitrary: s blkp)
  case Nil
  show ?case by (simp add: frame_refl)
next
  case (Cons pid pids)
  obtain r s1 where F: "fetchBlockTxids env s blkp pid = (r, s1)"
    by (cases "fetchBlockTxids env s blkp pid")
  from fetchBlockTxids_frame [of s env blkp pid] F
  have c1: "frame s s1" by simp
  from Cons.IH [of s1 None] c1
  have c2: "frame s (snd (fetchFromPeers env s1 None pids))" by (rule frame_trans [rotated])
  have "snd (fetchFromPeers env s blkp (pid # pids)) = s1
        \<or> snd (fetchFromPeers env s blkp (pid # pids)) = snd (fetchFromPeers env s1 None pids)"
    using F by (auto split: outcome.splits sum.splits)
  with c1 c2 show ?case by auto
qed

lemma fetchFromPeers_not_Blocks: "fst (fetchFromPeers env s blkp pids) \<noteq> Blocks"
proof (induction pids arbitrary: s blkp)
  case Nil
  show ?case by simp
next
  case (Cons pid pids)
  obtain r s1 where F: "fetchBlockTxids env s blkp pid = (r, s1)"
    by (cases "fetchBlockTxids env s blkp pid")
  with fetchBlockTxids_not_Blocks [of env s blkp pid] have "r \<noteq> Blocks" by simp
  with F Cons.IH [of s1 None] show ?case
    by (auto split: outcome.splits sum.splits)
qed

subsection \<open>The repair of a block whose transaction root is wrong\<close>

text \<open>
  When the relaying peer fails to supply the txids, the loop over the connected peers
  runs with the nil block of line 273. No peer's answer can make it succeed, so
  \<^verbatim>\<open>processBlock\<close> never rechecks: it panics or returns the original error, having
  made only requests and ban score calls.
\<close>

lemma processBlock_originator_fails:
  assumes root: "checkConnectBlock env (tick s) b = Some (RuleError ErrInvalidTxRoot)"
    and F: "fetchBlockTxids env (emit (CheckConnectBlock b) s) (Some b) p = (Returns (Inl e), s1)"
  shows "(fst (processBlock env s b p False) = Panics
           \<or> fst (processBlock env s b p False) = Returns (Some (RuleError ErrInvalidTxRoot)))
       \<and> frame s (snd (processBlock env s b p False))
       \<and> (\<exists>evs. calls (snd (processBlock env s b p False)) = calls s @ CheckConnectBlock b # evs
             \<and> list_all isRpc evs)"
proof -
  let ?s = "emit (CheckConnectBlock b) s"
  let ?s2 = "emit (IncreaseBanscore p 34 0) s1"
  from fetchBlockTxids_rpc [of env ?s "Some b" p] F
  obtain e1 where e1: "calls s1 = calls s @ CheckConnectBlock b # e1" "list_all isRpc e1"
    by (auto simp: emit_def)
  from fetchBlockTxids_frame [of ?s env "Some b" p] F frame_emit [of s "CheckConnectBlock b"]
  have c1: "frame s s1" by (auto intro: frame_trans)
  obtain r3 s3 where P: "fetchFromPeers env ?s2 None (peers env (tick ?s2)) = (r3, s3)"
    by (cases "fetchFromPeers env ?s2 None (peers env (tick ?s2))")
  from fetchFromPeers_rpc [of env ?s2 None "peers env (tick ?s2)"] P
  obtain e3 where e3: "calls s3 = calls ?s2 @ e3" "list_all isRpc e3" by auto
  from fetchFromPeers_frame [of ?s2 env None "peers env (tick ?s2)"] P
  have "frame ?s2 s3" by simp
  with c1 frame_emit [of s1 "IncreaseBanscore p 34 0"] have c3: "frame s s3"
    by (blast intro: frame_trans)
  from fetchFromPeers_nil [of env ?s2 "peers env (tick ?s2)"] P
  have nf: "\<forall>b'. r3 \<noteq> Returns (Some b')" by simp
  from fetchFromPeers_not_Blocks [of env ?s2 None "peers env (tick ?s2)"] P
  have nb: "r3 \<noteq> Blocks" by simp
  from root F P nf nb
  have res: "processBlock env s b p False =
          (if r3 = Panics then (Panics, s3) else (Returns (Some (RuleError ErrInvalidTxRoot)), s3))"
    by (cases r3) (auto simp: processBlock.simps [of env s b p False] Let_def split: option.splits)
  have "calls s3 = calls s @ CheckConnectBlock b # (e1 @ IncreaseBanscore p 34 0 # e3)"
    "list_all isRpc (e1 @ IncreaseBanscore p 34 0 # e3)"
    using e1 e3 by (simp_all add: emit_def isRpc_def)
  with res c3 show ?thesis by (cases "r3 = Panics") fastforce+
qed

text \<open>
  Claim C4, what the code does instead. On a first check that fails with
  \<^verbatim>\<open>ErrInvalidTxRoot\<close>, once \<^verbatim>\<open>fetchBlockTxids\<close> from the relaying peer has
  failed, \<^verbatim>\<open>processBlock\<close> penalises that peer and runs the loop over the connected
  peers, but no helper ever leads to a recheck: the call panics or returns the
  original error, \<^verbatim>\<open>CheckConnectBlock\<close> is called once only, the consensus engine
  is told of nothing and \<^verbatim>\<open>activeInventory\<close> is unchanged, whatever the peers answer.
\<close>

theorem processBlock_helpers_never_recheck:
  assumes root: "checkConnectBlock env (tick s) b = Some (RuleError ErrInvalidTxRoot)"
    and F: "fetchBlockTxids env (emit (CheckConnectBlock b) s) (Some b) p = (Returns (Inl e), s1)"
  shows "(fst (processBlock env s b p False) = Panics
           \<or> fst (processBlock env s b p False) = Returns (Some (RuleError ErrInvalidTxRoot)))
       \<and> (\<exists>evs. newCalls s (snd (processBlock env s b p False)) = CheckConnectBlock b # evs
             \<and> (\<forall>b'. CheckConnectBlock b' \<notin> set evs)
             \<and> filter isNewBlock evs = [])
       \<and> activeInventory (snd (processBlock env s b p False)) = activeInventory s"
proof -
  from processBlock_originator_fails [OF root F]
  obtain evs where r: "fst (processBlock env s b p False) = Panics
           \<or> fst (processBlock env s b p False) = Returns (Some (RuleError ErrInvalidTxRoot))"
    and f: "frame s (snd (processBlock env s b p False))"
    and c: "calls (snd (processBlock env s b p False)) = calls s @ CheckConnectBlock b # evs"
    and e: "list_all isRpc evs" by blast
  from c have "newCalls s (snd (processBlock env s b p False)) = CheckConnectBlock b # evs"
    by (simp add: newCalls_def)
  moreover from e have "\<forall>b'. CheckConnectBlock b' \<notin> set evs" "filter isNewBlock evs = []"
    by (simp_all add: rpc_no_Check rpc_no_NewBlock)
  moreover from frame_fields [OF f]
  have "activeInventory (snd (processBlock env s b p False)) = activeInventory s" by simp
  ultimately show ?thesis using r by blast
qed

text \<open>
  The failing input. Peer \<open>A\<close> relayed block 5 and does not answer
  \<^verbatim>\<open>GetBlockTxids\<close>; peer \<open>B\<close> is connected and would supply the right
  transaction, with which the chain accepts the block (the last two conjuncts).
  \<^verbatim>\<open>processBlock\<close> does not recurse with the block patched by \<open>B\<close>; it panics, at
  \<^verbatim>\<open>blk.ID()\<close> on the nil block when that method dereferences its receiver, or
  else at \<^verbatim>\<open>len(blk.Transactions)\<close> after \<open>B\<close> has answered.
\<close>

theorem processBlock_helper_loop_panics:
  "checkConnectBlock (repairEnv None) (tick zeroServer) (exampleBlock 5 [[1]])
     = Some (RuleError ErrInvalidTxRoot)
   \<and> fetchBlockTxids (repairEnv None) (emit (CheckConnectBlock (exampleBlock 5 [[1]])) zeroServer)
        (Some (exampleBlock 5 [[1]])) ''A''
     = (Returns (Inl (OtherError ''stream reset'')),
        zeroServer\<lparr>calls := [CheckConnectBlock (exampleBlock 5 [[1]]),
                              SendRequest ''A'' (GetBlockTxidsReq 5)]\<rparr>)
   \<and> processBlock (repairEnv None) zeroServer (exampleBlock 5 [[1]]) ''A'' False =
     (Panics,
      zeroServer\<lparr>calls := [CheckConnectBlock (exampleBlock 5 [[1]]),
                            SendRequest ''A'' (GetBlockTxidsReq 5),
                            IncreaseBanscore ''A'' 34 0]\<rparr>)
   \<and> processBlock (repairEnv (Some 0)) zeroServer (exampleBlock 5 [[1]]) ''A'' False =
     (Panics,
      zeroServer\<lparr>calls := [CheckConnectBlock (exampleBlock 5 [[1]]),
                            SendRequest ''A'' (GetBlockTxidsReq 5),
                            IncreaseBanscore ''A'' 34 0,
                            SendRequest ''B'' (GetBlockTxidsReq 0)]\<rparr>)
   \<and> fetchBlockTxids (repairEnv None) zeroServer (Some (exampleBlock 5 [[1]])) ''B'' =
     (Returns (Inr (exampleBlock 5 [[2]])),
      zeroServer\<lparr>calls := [SendRequest ''B'' (GetBlockTxidsReq 5),
                            SendRequest ''B'' (GetBlockTxsReq 5 [0])]\<rparr>)
   \<and> checkConnectBlock (repairEnv None) 3 (exampleBlock 5 [[2]]) = None"
proof -
  let ?E = "repairEnv None"
  let ?b = "exampleBlock 5 [[1]]"
  have root: "checkConnectBlock ?E (tick zeroServer) ?b = Some (RuleError ErrInvalidTxRoot)"
    by (simp add: repairEnv_def example_defs)
  have F: "fetchBlockTxids ?E (emit (CheckConnectBlock ?b) zeroServer) (Some ?b) ''A''
     = (Returns (Inl (OtherError ''stream reset'')),
        zeroServer\<lparr>calls := [CheckConnectBlock ?b, SendRequest ''A'' (GetBlockTxidsReq 5)]\<rparr>)"
    by (simp add: repairEnv_def example_defs)
  from processBlock_helpers_never_recheck [OF root F] root F show ?thesis
    by (simp add: repairEnv_def example_defs run_defs)
qed

subsection \<open>What one call of processBlock stores and announces\<close>

lemma acceptBlock_inventory:
  "activeInventory (snd (acceptBlock env s b)) = activeInventory s
   \<or> activeInventory (snd (acceptBlock env s b)) = (activeInventory s)(Block_ID env b \<mapsto> b)"
  by (auto simp: acceptBlock_def Let_def emit_def split: option.splits)

lemma processBlock_recheck_inventory:
  "activeInventory (snd (processBlock env s b p True)) = activeInventory s
   \<or> activeInventory (snd (processBlock env s b p True)) = (activeInventory s)(Block_ID env b \<mapsto> b)"
proof (cases "checkConnectBlock env (tick s) b")
  case None
  with acceptBlock_inventory [of env "emit (CheckConnectBlock b) s" b]
  show ?thesis
    by (simp add: processBlock.simps [of env s b p True] Let_def emit_def)
next
  case (Some e)
  then show ?thesis
    by (cases e)
       (auto simp: processBlock.simps [of env s b p True] Let_def emit_def split: option.splits)
qed

lemma processBlock_inventory:
  "activeInventory (snd (processBlock env s b p recheck)) = activeInventory s
   \<or> (\<exists>b'. Header b' = Header b
          \<and> activeInventory (snd (processBlock env s b p recheck))
              = (activeInventory s)(Block_ID env b \<mapsto> b'))"
proof (cases recheck)
  case True
  with processBlock_recheck_inventory [of env s b p] show ?thesis by auto
next
  case False
  then have [simp]: "recheck = False" by simp
  let ?s = "emit (CheckConnectBlock b) s"
  show ?thesis
  proof (cases "checkConnectBlock env (tick s) b = Some (RuleError ErrInvalidTxRoot)")
    case other: False
    show ?thesis
    proof (cases "checkConnectBlock env (tick s) b")
      case None
      with acceptBlock_inventory [of env ?s b]
      show ?thesis
        by (auto simp: processBlock.simps [of env s b p False] Let_def emit_def)
    next
      case (Some e)
      with other show ?thesis
        by (cases e)
           (auto simp: processBlock.simps [of env s b p False] Let_def emit_def split: option.splits)
    qed
  next
    case root: True
    obtain r s1 where F: "fetchBlockTxids env ?s (Some b) p = (r, s1)"
      by (cases "fetchBlockTxids env ?s (Some b) p")
    from fetchBlockTxids_frame [of ?s env "Some b" p] F frame_emit [of s "CheckConnectBlock b"]
    have c1: "frame s s1" by (auto intro: frame_trans)
    show ?thesis
    proof (cases "\<exists>b'. r = Returns (Inr b')")
      case True
      then obtain b' where r: "r = Returns (Inr b')" by blast
      with F have hdr: "Header b' = Header b" by (auto dest: fetchBlockTxids_header)
      then have id: "Block_ID env b' = Block_ID env b" by (simp add: Block_ID_def)
      from root F r
      have "processBlock env s b p False = processBlock env s1 b' p True"
        by (simp add: processBlock.simps [of env s b p False] Let_def)
      with id hdr processBlock_recheck_inventory [of env s1 b' p] frame_fields [OF c1]
      show ?thesis by auto
    next
      case False
      show ?thesis
      proof (cases "\<exists>e. r = Returns (Inl e)")
        case True
        then obtain e where r: "r = Returns (Inl e)" by blast
        from processBlock_originator_fails [OF root] F r
        have "frame s (snd (processBlock env s b p False))" by simp
        from frame_fields [OF this] show ?thesis by simp
      next
        case nl: False
        with False F root have "snd (processBlock env s b p False) = s1"
          by (cases r) (auto simp: processBlock.simps [of env s b p False] Let_def split: sum.splits)
        with frame_fields [OF c1] show ?thesis by simp
      qed
    qed
  qed
qed

text \<open>
  Claim C1, as amended. One call of \<^verbatim>\<open>processBlock\<close> on a block announces at most
  one block to the consensus engine and stores at most one block in
  \<^verbatim>\<open>activeInventory\<close>, a block with the header of the given one, under the ID of
  the given one. When \<^verbatim>\<open>CheckConnectBlock\<close> returns nil and neither
  \<^verbatim>\<open>inventoryLock\<close> nor \<^verbatim>\<open>orphanLock\<close> is held, the call stores the block in
  \<^verbatim>\<open>activeInventory\<close> under its ID, deletes that ID from \<^verbatim>\<open>orphanBlocks\<close>, calls
  \<^verbatim>\<open>NewBlock\<close> once, starts one waiter and returns nil: \<^verbatim>\<open>activeInventory\<close> is
  not consulted, so this happens also when the ID is already there.
\<close>

theorem processBlock_inserts_once_per_call:
  "length (filter isNewBlock (newCalls s (snd (processBlock env s b p recheck)))) \<le> 1
   \<and> (activeInventory (snd (processBlock env s b p recheck)) = activeInventory s
      \<or> (\<exists>b'. Header b' = Header b
             \<and> activeInventory (snd (processBlock env s b p recheck))
                 = (activeInventory s)(Block_ID env b \<mapsto> b')))
   \<and> (checkConnectBlock env (tick s) b = None \<and> free (inventoryLock s) \<and> free (orphanLock s) \<longrightarrow>
        fst (processBlock env s b p recheck) = Returns None
      \<and> newCalls s (snd (processBlock env s b p recheck))
           = [CheckConnectBlock b, NewBlock (Block_ID env b) True, GoWaiter b]
      \<and> activeInventory (snd (processBlock env s b p recheck))
           = (activeInventory s)(Block_ID env b \<mapsto> b)
      \<and> orphanBlocks (snd (processBlock env s b p recheck))
           = (orphanBlocks s)(Block_ID env b := None)
      \<and> inventoryLock (snd (processBlock env s b p recheck)) = inventoryLock s
      \<and> orphanLock (snd (processBlock env s b p recheck)) = orphanLock s)"
proof (intro conjI)
  from processBlock_calls [of env s b p recheck]
  show "length (filter isNewBlock (newCalls s (snd (processBlock env s b p recheck)))) \<le> 1"
    by (auto simp: newCalls_def shape_def)
next
  show "activeInventory (snd (processBlock env s b p recheck)) = activeInventory s
      \<or> (\<exists>b'. Header b' = Header b
             \<and> activeInventory (snd (processBlock env s b p recheck))
                 = (activeInventory s)(Block_ID env b \<mapsto> b'))"
    by (rule processBlock_inventory)
next
  show "checkConnectBlock env (tick s) b = None \<and> free (inventoryLock s) \<and> free (orphanLock s) \<longrightarrow>
        fst (processBlock env s b p recheck) = Returns None
      \<and> newCalls s (snd (processBlock env s b p recheck))
           = [CheckConnectBlock b, NewBlock (Block_ID env b) True, GoWaiter b]
      \<and> activeInventory (snd (processBlock env s b p recheck))
           = (activeInventory s)(Block_ID env b \<mapsto> b)
      \<and> orphanBlocks (snd (processBlock env s b p recheck))
           = (orphanBlocks s)(Block_ID env b := None)
      \<and> inventoryLock (snd (processBlock env s b p recheck)) = inventoryLock s
      \<and> orphanLock (snd (processBlock env s b p recheck)) = orphanLock s"
    by (simp add: processBlock.simps [of env s b p recheck] acceptBlock_def Let_def emit_def
          newCalls_def free_def Lock_def Unlock_def)
qed

text \<open>
  The claim as it was stated fails: the second arrival of block 5 finds it in
  \<^verbatim>\<open>activeInventory\<close> and is not a no-op; \<^verbatim>\<open>NewBlock\<close> is called a second time and
  a second waiter is started.
\<close>

theorem processBlock_second_arrival_counterexample:
  "activeInventory (snd (processBlock quietEnv zeroServer (exampleBlock 5 []) ''A'' False)) 5
     = Some (exampleBlock 5 [])
   \<and> calls (snd (processBlock quietEnv zeroServer (exampleBlock 5 []) ''A'' False))
     = [CheckConnectBlock (exampleBlock 5 []), NewBlock 5 True, GoWaiter (exampleBlock 5 [])]
   \<and> calls (snd (processBlock quietEnv
              (snd (processBlock quietEnv zeroServer (exampleBlock 5 []) ''A'' False))
              (exampleBlock 5 []) ''B'' False))
     = [CheckConnectBlock (exampleBlock 5 []), NewBlock 5 True, GoWaiter (exampleBlock 5 []),
        CheckConnectBlock (exampleBlock 5 []), NewBlock 5 True, GoWaiter (exampleBlock 5 [])]"
  by (simp add: example_defs run_defs)

text \<open>
  On a concrete input, the second arrival of block 5, from peer \<open>B\<close>, at the server
  that the first arrival has left: the ID 5 is in \<^verbatim>\<open>activeInventory\<close>, the chain
  accepts the block and both mutexes are free; the call announces the block again.
\<close>

theorem processBlock_inserts_once_per_call_witness:
  "activeInventory (snd (processBlock quietEnv zeroServer (exampleBlock 5 []) ''A'' False)) 5
     = Some (exampleBlock 5 [])
   \<and> checkConnectBlock quietEnv
       (tick (snd (processBlock quietEnv zeroServer (exampleBlock 5 []) ''A'' False)))
       (exampleBlock 5 []) = None
   \<and> free (inventoryLock (snd (processBlock quietEnv zeroServer (exampleBlock 5 []) ''A'' False)))
   \<and> free (orphanLock (snd (processBlock quietEnv zeroServer (exampleBlock 5 []) ''A'' False)))
   \<and> fst (processBlock quietEnv
            (snd (processBlock quietEnv zeroServer (exampleBlock 5 []) ''A'' False))
            (exampleBlock 5 []) ''B'' False) = Returns None
   \<and> newCalls (snd (processBlock quietEnv zeroServer (exampleBlock 5 []) ''A'' False))
       (snd (processBlock quietEnv
              (snd (processBlock quietEnv zeroServer (exampleBlock 5 []) ''A'' False))
              (exampleBlock 5 []) ''B'' False))
       = [CheckConnectBlock (exampleBlock 5 []), NewBlock 5 True, GoWaiter (exampleBlock 5 [])]
   \<and> activeInventory
       (snd (processBlock quietEnv
              (snd (processBlock quietEnv zeroServer (exampleBlock 5 []) ''A'' False))
              (exampleBlock 5 []) ''B'' False)) 5
       = Some (exampleBlock 5 [])"
proof -
  let ?b = "exampleBlock 5 []"
  let ?s = "snd (processBlock quietEnv zeroServer ?b ''A'' False)"
  have a: "activeInventory ?s 5 = Some ?b" by (simp add: example_defs run_defs)
  have c: "checkConnectBlock quietEnv (tick ?s) ?b = None" by (simp add: quietEnv_def)
  have l: "free (inventoryLock ?s)" "free (orphanLock ?s)"
    by (simp_all add: example_defs run_defs free_def)
  have i: "Block_ID quietEnv ?b = 5" by (simp add: example_defs run_defs)
  from processBlock_inserts_once_per_call [of ?s quietEnv ?b "''B''" False] a c l show ?thesis
    by (simp add: i)
qed

subsection \<open>The waiter\<close>

lemma firstOrphanAbove_Some:
  "firstOrphanAbove m h ks = Some orphan \<Longrightarrow>
     orphan \<in> ran m \<and> Height (Header (orphan_blk orphan)) = h + 1"
  by (induction ks) (auto simp: ran_def split: option.splits if_splits)

lemma acceptBlock_inventory_other:
  "k \<noteq> Block_ID env b \<Longrightarrow> activeInventory (snd (acceptBlock env s b)) k = activeInventory s k"
  by (auto simp: acceptBlock_def Let_def emit_def split: option.splits)

lemma processBlock_recheck_inventory_other:
  "k \<noteq> Block_ID env b \<Longrightarrow>
     activeInventory (snd (processBlock env s b p True)) k = activeInventory s k"
proof (cases "checkConnectBlock env (tick s) b")
  case None
  assume "k \<noteq> Block_ID env b"
  with acceptBlock_inventory_other [of k env b "emit (CheckConnectBlock b) s"] None
  show ?thesis
    by (simp add: processBlock.simps [of env s b p True] Let_def emit_def)
next
  case (Some e)
  then show ?thesis
    by (cases e)
       (auto simp: processBlock.simps [of env s b p True] Let_def emit_def split: option.splits)
qed

lemma processBlock_inventory_other:
  assumes k: "k \<noteq> Block_ID env b"
  shows "activeInventory (snd (processBlock env s b p recheck)) k = activeInventory s k"
proof (cases recheck)
  case True
  with k processBlock_recheck_inventory_other [of k env b s p] show ?thesis by simp
next
  case False
  then have [simp]: "recheck = False" by simp
  let ?s = "emit (CheckConnectBlock b) s"
  show ?thesis
  proof (cases "checkConnectBlock env (tick s) b = Some (RuleError ErrInvalidTxRoot)")
    case other: False
    show ?thesis
    proof (cases "checkConnectBlock env (tick s) b")
      case None
      with k acceptBlock_inventory_other [of k env b ?s]
      show ?thesis
        by (simp add: processBlock.simps [of env s b p False] Let_def emit_def)
    next
      case (Some e)
      with other show ?thesis
        by (cases e)
           (auto simp: processBlock.simps [of env s b p False] Let_def emit_def split: option.splits)
    qed
  next
    case root: True
    obtain r s1 where F: "fetchBlockTxids env ?s (Some b) p = (r, s1)"
      by (cases "fetchBlockTxids env ?s (Some b) p")
    from fetchBlockTxids_frame [of ?s env "Some b" p] F frame_emit [of s "CheckConnectBlock b"]
    have c1: "frame s s1" by (auto intro: frame_trans)
    show ?thesis
    proof (cases "\<exists>b'. r = Returns (Inr b')")
      case True
      then obtain b' where r: "r = Returns (Inr b')" by blast
      with F have "Header b' = Header b" by (auto dest: fetchBlockTxids_header)
      then have id: "Block_ID env b' = Block_ID env b" by (simp add: Block_ID_def)
      from root F r
      have "processBlock env s b p False = processBlock env s1 b' p True"
        by (simp add: processBlock.simps [of env s b p False] Let_def)
      with k id processBlock_recheck_inventory_other [of k env b' s1 p] frame_fields [OF c1]
      show ?thesis by simp
    next
      case False
      show ?thesis
      proof (cases "\<exists>e. r = Returns (Inl e)")
        case True
        then obtain e where r: "r = Returns (Inl e)" by blast
        from processBlock_originator_fails [OF root] F r
        have "frame s (snd (processBlock env s b p False))" by simp
        from frame_fields [OF this] show ?thesis by simp
      next
        case nl: False
        with False F root have "snd (processBlock env s b p False) = s1"
          by (cases r) (auto simp: processBlock.simps [of env s b p False] Let_def split: sum.splits)
        with frame_fields [OF c1] show ?thesis by simp
      qed
    qed
  qed
qed

text \<open>
  Claim C2, as amended. Started with both mutexes free, the waiter does nothing on
  cancellation. On a verdict, finalized or rejected alike, it deletes the block from
  \<^verbatim>\<open>activeInventory\<close> and looks for a stored orphan whose height is the block's
  height plus one. When there is none it returns, and nothing else has changed but
  the log of the verdict. When the map iteration meets one first, that orphan and no
  other is re-entered through \<^verbatim>\<open>processBlock\<close> with \<^verbatim>\<open>recheck\<close> false, on the
  server \<open>s3\<close> that the waiter has reached by then: the block deleted from
  \<^verbatim>\<open>activeInventory\<close>, \<^verbatim>\<open>orphanLock\<close> held, the calls of the verdict logged. The
  waiter returns, panics or blocks as that call does, and its log and its
  \<^verbatim>\<open>activeInventory\<close> are those of that call. So after the calls of the verdict the
  log continues with \<^verbatim>\<open>CheckConnectBlock\<close> of the orphan, every later check is of a
  block with the orphan's header, and at most one block is announced to the consensus
  engine; the resolved block is no longer in \<^verbatim>\<open>activeInventory\<close> (unless the
  orphan has the very same ID).
\<close>

theorem waiter_reenters_one_orphan:
  assumes inv: "free (inventoryLock s)" and orp: "free (orphanLock s)"
    and t: "t = tick s + length (verdictCalls st b)"
    and s3: "s3 = s\<lparr>activeInventory := (activeInventory s)(Block_ID env b := None),
                    orphanLock := (orphanLock s)\<lparr>writer := True\<rparr>,
                    calls := calls s @ verdictCalls st b\<rparr>"
  shows "waiter env s b CtxDone = (Returns (), s)
    \<and> (case firstOrphanAbove (orphanBlocks s) (Height (Header b)) (rangeOrder env t) of
          None \<Rightarrow>
            waiter env s b (Callback st) =
              (Returns (),
               s\<lparr>activeInventory := (activeInventory s)(Block_ID env b := None),
                  calls := calls s @ verdictCalls st b\<rparr>)
        | Some orphan \<Rightarrow>
            orphan \<in> ran (orphanBlocks s)
          \<and> Height (Header (orphan_blk orphan)) = Height (Header b) + 1
          \<and> fst (waiter env s b (Callback st))
              = (case fst (processBlock env s3 (orphan_blk orphan) (orphan_relayingPeer orphan) False) of
                   Returns r \<Rightarrow> Returns () | Panics \<Rightarrow> Panics | Blocks \<Rightarrow> Blocks)
          \<and> calls (snd (waiter env s b (Callback st)))
              = calls (snd (processBlock env s3 (orphan_blk orphan) (orphan_relayingPeer orphan) False))
          \<and> activeInventory (snd (waiter env s b (Callback st)))
              = activeInventory
                  (snd (processBlock env s3 (orphan_blk orphan) (orphan_relayingPeer orphan) False))
          \<and> (\<exists>evs. newCalls s (snd (waiter env s b (Callback st)))
                      = verdictCalls st b @ CheckConnectBlock (orphan_blk orphan) # evs
                   \<and> shape (orphan_blk orphan) (CheckConnectBlock (orphan_blk orphan) # evs))
          \<and> (Block_ID env (orphan_blk orphan) \<noteq> Block_ID env b \<longrightarrow>
                activeInventory (snd (waiter env s b (Callback st))) (Block_ID env b) = None))"
proof
  show "waiter env s b CtxDone = (Returns (), s)" by (simp add: waiter_def)
next
  let ?s1 = "case st of StatusFinalized \<Rightarrow> emit (ConnectBlock b) s | StatusRejected \<Rightarrow> s"
  have c1: "calls ?s1 = calls s @ verdictCalls st b" and f1: "frame s ?s1"
    by (cases st; simp add: emit_def verdictCalls_def frame_def)+
  from frame_fields [OF f1] have fields: "activeInventory ?s1 = activeInventory s"
    "orphanBlocks ?s1 = orphanBlocks s" "inventoryLock ?s1 = inventoryLock s"
    "orphanLock ?s1 = orphanLock s" by simp_all
  have t1: "tick ?s1 = t" using c1 t by (simp add: tick_def)
  let ?s2 = "?s1\<lparr>activeInventory := (activeInventory s)(Block_ID env b := None),
                 inventoryLock := inventoryLock s\<rparr>"
  let ?s3 = "?s2\<lparr>orphanLock := (orphanLock s)\<lparr>writer := True\<rparr>\<rparr>"
  have t3: "tick ?s3 = t" using t1 by (simp add: tick_def)
  have c3: "calls ?s3 = calls s @ verdictCalls st b" using c1 by simp
  have s1eq: "?s1 = s\<lparr>calls := calls s @ verdictCalls st b\<rparr>"
    by (cases st) (simp_all add: emit_def verdictCalls_def)
  have s3eq: "?s3 = s3" using inv orp by (simp add: s3 s1eq)
  show "case firstOrphanAbove (orphanBlocks s) (Height (Header b)) (rangeOrder env t) of
          None \<Rightarrow>
            waiter env s b (Callback st) =
              (Returns (),
               s\<lparr>activeInventory := (activeInventory s)(Block_ID env b := None),
                  calls := calls s @ verdictCalls st b\<rparr>)
        | Some orphan \<Rightarrow>
            orphan \<in> ran (orphanBlocks s)
          \<and> Height (Header (orphan_blk orphan)) = Height (Header b) + 1
          \<and> fst (waiter env s b (Callback st))
              = (case fst (processBlock env s3 (orphan_blk orphan) (orphan_relayingPeer orphan) False) of
                   Returns r \<Rightarrow> Returns () | Panics \<Rightarrow> Panics | Blocks \<Rightarrow> Blocks)
          \<and> calls (snd (waiter env s b (Callback st)))
              = calls (snd (processBlock env s3 (orphan_blk orphan) (orphan_relayingPeer orphan) False))
          \<and> activeInventory (snd (waiter env s b (Callback st)))
              = activeInventory
                  (snd (processBlock env s3 (orphan_blk orphan) (orphan_relayingPeer orphan) False))
          \<and> (\<exists>evs. newCalls s (snd (waiter env s b (Callback st)))
                      = verdictCalls st b @ CheckConnectBlock (orphan_blk orphan) # evs
                   \<and> shape (orphan_blk orphan) (CheckConnectBlock (orphan_blk orphan) # evs))
          \<and> (Block_ID env (orphan_blk orphan) \<noteq> Block_ID env b \<longrightarrow>
                activeInventory (snd (waiter env s b (Callback st))) (Block_ID env b) = None)"
  proof (cases "firstOrphanAbove (orphanBlocks s) (Height (Header b)) (rangeOrder env t)")
    case None
    with inv orp fields t3 have
      "waiter env s b (Callback st) =
         (Returns (), ?s3\<lparr>orphanLock := Unlock (orphanLock ?s3)\<rparr>)"
      by (simp add: waiter_def Let_def Lock_free tick_def)
    also have "?s3\<lparr>orphanLock := Unlock (orphanLock ?s3)\<rparr> =
               s\<lparr>activeInventory := (activeInventory s)(Block_ID env b := None),
                  calls := calls s @ verdictCalls st b\<rparr>"
      using orp inv by (simp add: s1eq Lock_free)
    finally show ?thesis using None by simp
  next
    case (Some orphan)
    let ?ob = "orphan_blk orphan"
    let ?P = "processBlock env ?s3 ?ob (orphan_relayingPeer orphan) False"
    from firstOrphanAbove_Some [OF Some]
    have o: "orphan \<in> ran (orphanBlocks s)" "Height (Header ?ob) = Height (Header b) + 1"
      by simp_all
    from inv orp fields t3 Some
    have w: "calls (snd (waiter env s b (Callback st))) = calls (snd ?P)
           \<and> activeInventory (snd (waiter env s b (Callback st))) = activeInventory (snd ?P)
           \<and> fst (waiter env s b (Callback st))
               = (case fst ?P of Returns r \<Rightarrow> Returns () | Panics \<Rightarrow> Panics | Blocks \<Rightarrow> Blocks)"
      by (cases ?P; cases "fst ?P") (simp_all add: waiter_def Let_def Lock_free tick_def)
    from processBlock_calls [of env ?s3 ?ob "orphan_relayingPeer orphan" False]
    obtain evs' where evs: "calls (snd ?P) = calls ?s3 @ CheckConnectBlock ?ob # evs'"
      "shape ?ob (CheckConnectBlock ?ob # evs')" by blast
    have n: "newCalls s (snd (waiter env s b (Callback st)))
              = verdictCalls st b @ CheckConnectBlock ?ob # evs'"
      using w evs(1) c3 by (simp add: newCalls_def)
    have a: "Block_ID env ?ob \<noteq> Block_ID env b \<longrightarrow>
                activeInventory (snd (waiter env s b (Callback st))) (Block_ID env b) = None"
      using w processBlock_inventory_other [of "Block_ID env b" env ?ob ?s3 "orphan_relayingPeer orphan" False]
      by auto
    from o n evs(2) a Some w show ?thesis unfolding s3eq by auto
  qed
qed

text \<open>
  The claim as it was stated fails: block 5 is rejected, and the waiter re-enters
  \<^verbatim>\<open>processBlock\<close> for the stored orphan 6, whose relaying peer is banned when the
  chain finds a rule broken.
\<close>

theorem waiter_rejected_reenters_counterexample:
  "fst (waiter (orphanEnv (Some (RuleError (ErrOtherRule 7)))) orphanServer (exampleBlock 5 [])
          (Callback StatusRejected)) = Returns ()
   \<and> calls (snd (waiter (orphanEnv (Some (RuleError (ErrOtherRule 7)))) orphanServer (exampleBlock 5 [])
          (Callback StatusRejected)))
       = [CheckConnectBlock (exampleBlock 6 []), IncreaseBanscore ''O'' 101 0]
   \<and> orphanBlocks orphanServer 6
       = Some \<lparr>orphan_blk = exampleBlock 6 [], orphan_relayingPeer = ''O'', orphan_firstSeen = 0\<rparr>"
  by (simp add: orphanServer_def orphanEnv_def example_defs run_defs)

text \<open>
  On a concrete input: block 5 is rejected while the orphan 6, relayed by \<open>O\<close>, is
  stored, and the chain finds a rule broken in the orphan. The waiter re-enters
  \<^verbatim>\<open>processBlock\<close> for the orphan with \<^verbatim>\<open>recheck\<close> false, which bans \<open>O\<close>.
\<close>

theorem waiter_reenters_one_orphan_witness:
  "free (inventoryLock orphanServer) \<and> free (orphanLock orphanServer)
   \<and> firstOrphanAbove (orphanBlocks orphanServer) (Height (Header (exampleBlock 5 [])))
        (rangeOrder (orphanEnv (Some (RuleError (ErrOtherRule 7)))) 0)
      = Some \<lparr>orphan_blk = exampleBlock 6 [], orphan_relayingPeer = ''O'', orphan_firstSeen = 0\<rparr>
   \<and> Height (Header (exampleBlock 6 [])) = Height (Header (exampleBlock 5 [])) + 1
   \<and> fst (waiter (orphanEnv (Some (RuleError (ErrOtherRule 7)))) orphanServer (exampleBlock 5 [])
            (Callback StatusRejected)) = Returns ()
   \<and> calls (snd (waiter (orphanEnv (Some (RuleError (ErrOtherRule 7)))) orphanServer (exampleBlock 5 [])
            (Callback StatusRejected)))
      = [CheckConnectBlock (exampleBlock 6 []), IncreaseBanscore ''O'' 101 0]
   \<and> activeInventory
        (snd (waiter (orphanEnv (Some (RuleError (ErrOtherRule 7)))) orphanServer (exampleBlock 5 [])
               (Callback StatusRejected))) 5 = None"
proof -
  let ?E = "orphanEnv (Some (RuleError (ErrOtherRule 7)))"
  let ?o = "\<lparr>orphan_blk = exampleBlock 6 [], orphan_relayingPeer = ''O'', orphan_firstSeen = 0\<rparr>"
  let ?s3 = "orphanServer\<lparr>activeInventory := (activeInventory orphanServer)(Block_ID ?E (exampleBlock 5 []) := None),
                          orphanLock := (orphanLock orphanServer)\<lparr>writer := True\<rparr>,
                          calls := calls orphanServer @ verdictCalls StatusRejected (exampleBlock 5 [])\<rparr>"
  have i: "free (inventoryLock orphanServer)" and o: "free (orphanLock orphanServer)"
    by (simp_all add: orphanServer_def orphanEnv_def verdictCalls_def example_defs free_def unlocked_def)
  have t: "0 = tick orphanServer + length (verdictCalls StatusRejected (exampleBlock 5 []))"
    by (simp add: orphanServer_def orphanEnv_def verdictCalls_def example_defs)
  have f: "firstOrphanAbove (orphanBlocks orphanServer) (Height (Header (exampleBlock 5 [])))
        (rangeOrder ?E 0) = Some ?o"
    by (simp add: orphanServer_def orphanEnv_def verdictCalls_def example_defs)
  have d: "Block_ID ?E (exampleBlock 6 []) \<noteq> Block_ID ?E (exampleBlock 5 [])"
    by (simp add: orphanServer_def orphanEnv_def verdictCalls_def example_defs)
  have id5: "Block_ID ?E (exampleBlock 5 []) = 5"
    by (simp add: orphanServer_def orphanEnv_def verdictCalls_def example_defs)
  have P: "fst (processBlock ?E ?s3 (exampleBlock 6 []) ''O'' False)
             = Returns (Some (RuleError (ErrOtherRule 7)))
         \<and> calls (snd (processBlock ?E ?s3 (exampleBlock 6 []) ''O'' False))
             = [CheckConnectBlock (exampleBlock 6 []), IncreaseBanscore ''O'' 101 0]
         \<and> activeInventory (snd (processBlock ?E ?s3 (exampleBlock 6 []) ''O'' False)) 5 = None"
    by (simp add: orphanServer_def orphanEnv_def verdictCalls_def example_defs run_defs)
  from waiter_reenters_one_orphan [OF i o t refl, of ?E] f d P show ?thesis
    using i o by (simp add: id5)
qed

text \<open>
  Claim C6, what the code does instead. Let the waiter, started with both mutexes
  free, find a stored orphan one above the resolved block, and let the chain accept
  that orphan. The waiter holds \<^verbatim>\<open>orphanLock\<close> (line 337) when it calls
  \<^verbatim>\<open>processBlock\<close> for the orphan, which stores the orphan in
  \<^verbatim>\<open>activeInventory\<close> (line 308) and then asks for \<^verbatim>\<open>orphanLock\<close> itself
  (line 311). The goroutine blocks for ever: the orphan is in \<^verbatim>\<open>activeInventory\<close>
  and still in \<^verbatim>\<open>orphanBlocks\<close>, and \<^verbatim>\<open>NewBlock\<close> is not called.
\<close>

theorem waiter_blocks_with_orphan_in_both_maps:
  assumes inv: "free (inventoryLock s)" and orp: "free (orphanLock s)"
    and t: "t = tick s + length (verdictCalls st b)"
    and first: "firstOrphanAbove (orphanBlocks s) (Height (Header b)) (rangeOrder env t) = Some orphan"
    and ok: "checkConnectBlock env t (orphan_blk orphan) = None"
    and stored: "orphanBlocks s (Block_ID env (orphan_blk orphan)) = Some orphan"
  shows "fst (waiter env s b (Callback st)) = Blocks
       \<and> activeInventory (snd (waiter env s b (Callback st))) (Block_ID env (orphan_blk orphan))
           = Some (orphan_blk orphan)
       \<and> orphanBlocks (snd (waiter env s b (Callback st))) (Block_ID env (orphan_blk orphan))
           = Some orphan
       \<and> newCalls s (snd (waiter env s b (Callback st)))
           = verdictCalls st b @ [CheckConnectBlock (orphan_blk orphan)]"
proof -
  let ?s1 = "case st of StatusFinalized \<Rightarrow> emit (ConnectBlock b) s | StatusRejected \<Rightarrow> s"
  have s1eq: "?s1 = s\<lparr>calls := calls s @ verdictCalls st b\<rparr>"
    by (cases st) (simp_all add: emit_def verdictCalls_def)
  have t1: "tick ?s1 = t" using t by (simp add: s1eq tick_def)
  show ?thesis
    using inv orp first ok stored t1 t
    by (simp add: waiter_def Let_def Lock_free s1eq tick_def processBlock.simps acceptBlock_def
          emit_def Lock_def waitForLock_def newCalls_def free_def)
qed


text \<open>
  The failing input: block 5 is finalized while block 6 is a stored orphan that the
  chain now accepts.
\<close>

theorem waiter_leaves_orphan_in_both_maps:
  "free (inventoryLock orphanServer) \<and> free (orphanLock orphanServer)
   \<and> firstOrphanAbove (orphanBlocks orphanServer) (Height (Header (exampleBlock 5 [])))
        (rangeOrder (orphanEnv None) 1)
      = Some \<lparr>orphan_blk = exampleBlock 6 [], orphan_relayingPeer = ''O'', orphan_firstSeen = 0\<rparr>
   \<and> checkConnectBlock (orphanEnv None) 1 (exampleBlock 6 []) = None
   \<and> fst (waiter (orphanEnv None) orphanServer (exampleBlock 5 []) (Callback StatusFinalized)) = Blocks
   \<and> calls (snd (waiter (orphanEnv None) orphanServer (exampleBlock 5 []) (Callback StatusFinalized)))
       = [ConnectBlock (exampleBlock 5 []), CheckConnectBlock (exampleBlock 6 [])]
   \<and> activeInventory
        (snd (waiter (orphanEnv None) orphanServer (exampleBlock 5 []) (Callback StatusFinalized))) 6
       = Some (exampleBlock 6 [])
   \<and> orphanBlocks
        (snd (waiter (orphanEnv None) orphanServer (exampleBlock 5 []) (Callback StatusFinalized))) 6
       = Some \<lparr>orphan_blk = exampleBlock 6 [], orphan_relayingPeer = ''O'', orphan_firstSeen = 0\<rparr>
   \<and> orphanLock
        (snd (waiter (orphanEnv None) orphanServer (exampleBlock 5 []) (Callback StatusFinalized)))
       = \<lparr>writer = True, readers = 0, writerWaiting = True\<rparr>"
proof -
  let ?E = "orphanEnv None"
  let ?o = "\<lparr>orphan_blk = exampleBlock 6 [], orphan_relayingPeer = ''O'', orphan_firstSeen = 0\<rparr>"
  have i: "free (inventoryLock orphanServer)" and o: "free (orphanLock orphanServer)"
    by (simp_all add: orphanServer_def example_defs free_def unlocked_def)
  have t: "1 = tick orphanServer + length (verdictCalls StatusFinalized (exampleBlock 5 []))"
    by (simp add: orphanServer_def verdictCalls_def example_defs)
  have f: "firstOrphanAbove (orphanBlocks orphanServer) (Height (Header (exampleBlock 5 [])))
             (rangeOrder ?E 1) = Some ?o"
    by (simp add: orphanServer_def orphanEnv_def example_defs)
  have c: "checkConnectBlock ?E 1 (orphan_blk ?o) = None"
    by (simp add: orphanEnv_def example_defs)
  have st: "orphanBlocks orphanServer (Block_ID ?E (orphan_blk ?o)) = Some ?o"
    by (simp add: orphanServer_def orphanEnv_def example_defs)
  from waiter_blocks_with_orphan_in_both_maps [OF i o t f c st] i o f c show ?thesis
    by (simp add: orphanServer_def orphanEnv_def example_defs run_defs)
qed

subsection \<open>requestBlock\<close>

text \<open>For a block that is in flight, \<^verbatim>\<open>requestBlock\<close> returns at once.\<close>

lemma requestBlock_in_flight:
  assumes "inflightRequests s blockID = Some v" "\<not> writer (inflightLock s)" "\<not> writerWaiting (inflightLock s)"
  shows "requestBlock env s blockID p = (Returns (), s)"
  using assms by (simp add: requestBlock_def RLock_def RUnlock_def)

text \<open>
  For a block that is not in flight, \<^verbatim>\<open>requestBlock\<close> holds the read lock twice
  (lines 421 and 426) when it asks for the write lock on line 428, in every state and
  environment: it blocks for ever, having inserted nothing into
  \<^verbatim>\<open>inflightRequests\<close> and asked no peer; no timer is armed.
\<close>

lemma requestBlock_blocks_when_not_in_flight:
  assumes "inflightRequests s blockID = None"
  shows "fst (requestBlock env s blockID p) = Blocks
       \<and> inflightRequests (snd (requestBlock env s blockID p)) = inflightRequests s
       \<and> calls (snd (requestBlock env s blockID p)) = calls s"
  using assms by (simp add: requestBlock_def RLock_def Lock_def split: option.splits)

text \<open>
  On a concrete input: block 7 is not in flight and every peer would serve it.
\<close>

lemma requestBlock_blocks_before_insert:
  "inflightRequests zeroServer 7 = None
   \<and> requestBlock servingEnv zeroServer 7 ''A'' =
     (Blocks, zeroServer\<lparr>inflightLock := \<lparr>writer = False, readers = 2, writerWaiting = True\<rparr>\<rparr>)
   \<and> inflightRequests (snd (requestBlock servingEnv zeroServer 7 ''A'')) 7 = None
   \<and> calls (snd (requestBlock servingEnv zeroServer 7 ''A'')) = []
   \<and> replyGetBlock servingEnv 0 ''A'' 7 = Inr (ErrorResponse_None, exampleBlock 7 [])"
proof -
  have n: "inflightRequests zeroServer 7 = None" by (simp add: zeroServer_def)
  from requestBlock_blocks_when_not_in_flight [OF n, of servingEnv "''A''"] n show ?thesis
    by (simp add: servingEnv_def example_defs run_defs)
qed


subsection \<open>BuildServer\<close>

lemma whitelistLoop_nil_policy:
  "policy s = None \<Longrightarrow>
     whitelistLoop bs s wl =
       (case wl of [] \<Rightarrow> Returns (None, s)
        | x # xs \<Rightarrow> (case NewIDFromString bs x of Inl e \<Rightarrow> Returns (Some e, s) | Inr w \<Rightarrow> Panics))"
  by (cases wl) (auto split: sum.splits)

text \<open>
  Claim C10, as amended. When \<^verbatim>\<open>setupLogging\<close> returns no error and the first
  entry of the treasury whitelist is a valid ID string, \<^verbatim>\<open>BuildServer\<close>
  dereferences the nil \<^verbatim>\<open>s.policy\<close> and panics. When \<^verbatim>\<open>setupLogging\<close> returns
  no error and the first entry fails to parse, \<^verbatim>\<open>BuildServer\<close> returns the error
  of the parser, whatever follows in the list. \<^verbatim>\<open>BuildServer\<close> returns a server
  only for an empty whitelist.
\<close>

theorem BuildServer_nil_policy:
  "(setupLogging bs = None \<and> cfg_TreasuryWhitelist config = x # xs \<and> NewIDFromString bs x = Inr w
      \<longrightarrow> BuildServer bs config = Panics)
   \<and> (setupLogging bs = None \<and> cfg_TreasuryWhitelist config = x # xs \<and> NewIDFromString bs x = Inl e
      \<longrightarrow> BuildServer bs config = Returns (Inl e))
   \<and> (BuildServer bs config = Returns (Inr srv) \<longrightarrow> cfg_TreasuryWhitelist config = [])"
  by (auto simp: BuildServer_def Let_def whitelistLoop_nil_policy zeroServer_def
           split: option.splits list.splits sum.splits)

text \<open>
  The claim as it was stated fails. A whitelist that contains a valid ID after an
  invalid first entry makes \<^verbatim>\<open>BuildServer\<close> return the parse error, without any
  dereference; and when \<^verbatim>\<open>setupLogging\<close> fails, \<^verbatim>\<open>BuildServer\<close> returns that
  error before it reads the whitelist, although the whitelist holds a valid ID.
\<close>

theorem BuildServer_bad_first_entry_counterexample:
  "NewIDFromString okBuilders ''00'' = Inr 0
   \<and> ''00'' \<in> set (cfg_TreasuryWhitelist (exampleConfig [''zz'', ''00'']))
   \<and> BuildServer okBuilders (exampleConfig [''zz'', ''00'']) = Returns (Inl (OtherError ''invalid id''))
   \<and> ''00'' \<in> set (cfg_TreasuryWhitelist (exampleConfig [''00'']))
   \<and> BuildServer (okBuilders\<lparr>setupLogging := Some (OtherError ''invalid log level'')\<rparr>)
        (exampleConfig [''00'']) = Returns (Inl (OtherError ''invalid log level''))"
  by (simp add: okBuilders_def exampleConfig_def BuildServer_def zeroServer_def)

text \<open>
  On concrete inputs: a whitelist whose first entry is valid, one whose first entry is
  not, and the empty whitelist, for which the server is returned with its policy set.
\<close>

theorem BuildServer_nil_policy_witness:
  "setupLogging okBuilders = None
   \<and> cfg_TreasuryWhitelist (exampleConfig [''00'']) = [''00'']
   \<and> NewIDFromString okBuilders ''00'' = Inr 0
   \<and> BuildServer okBuilders (exampleConfig [''00'']) = Panics
   \<and> cfg_TreasuryWhitelist (exampleConfig [''zz'', ''00'']) = [''zz'', ''00'']
   \<and> NewIDFromString okBuilders ''zz'' = Inl (OtherError ''invalid id'')
   \<and> BuildServer okBuilders (exampleConfig [''zz'', ''00'']) = Returns (Inl (OtherError ''invalid id''))
   \<and> BuildServer okBuilders (exampleConfig []) =
       Returns (Inr (zeroServer\<lparr>policy := Some \<lparr>MinFeePerByte = 10, MinStake = 1000,
                       BlocksizeSoftLimit = 1000000, MaxMessageSize = 4000000,
                       TreasuryWhitelist = []\<rparr>\<rparr>))
   \<and> cfg_TreasuryWhitelist (exampleConfig []) = []"
proof -
  let ?srv = "zeroServer\<lparr>policy := Some \<lparr>MinFeePerByte = 10, MinStake = 1000,
                BlocksizeSoftLimit = 1000000, MaxMessageSize = 4000000,
                TreasuryWhitelist = []\<rparr>\<rparr>"
  have l: "setupLogging okBuilders = None" by (simp add: okBuilders_def)
  have w1: "cfg_TreasuryWhitelist (exampleConfig [''00'']) = [''00'']"
    and w2: "cfg_TreasuryWhitelist (exampleConfig [''zz'', ''00'']) = [''zz'', ''00'']"
    by (simp_all add: exampleConfig_def)
  have p1: "NewIDFromString okBuilders ''00'' = Inr 0"
    and p2: "NewIDFromString okBuilders ''zz'' = Inl (OtherError ''invalid id'')"
    by (simp_all add: okBuilders_def)
  have srv: "BuildServer okBuilders (exampleConfig []) = Returns (Inr ?srv)"
    by (simp add: okBuilders_def exampleConfig_def BuildServer_def zeroServer_def setupKey_def)
  from BuildServer_nil_policy [of okBuilders "exampleConfig [''00'']" "''00''" "[]" 0] l w1 p1
  have a: "BuildServer okBuilders (exampleConfig [''00'']) = Panics" by simp
  from BuildServer_nil_policy [of okBuilders "exampleConfig [''zz'', ''00'']" "''zz''" "[''00'']" _
         "OtherError ''invalid id''"] l w2 p2
  have b: "BuildServer okBuilders (exampleConfig [''zz'', ''00'']) = Returns (Inl (OtherError ''invalid id''))"
    by simp
  from BuildServer_nil_policy [of okBuilders "exampleConfig []" _ _ _ _ ?srv] srv
  have c: "cfg_TreasuryWhitelist (exampleConfig []) = []" by simp
  from l w1 w2 p1 p2 srv a b c show ?thesis by simp
qed

end
